theory Spec2Isabelle
  imports Complex_Main
begin

section \<open>Conventions of the embedding\<close>

text \<open>
  The solvers compute in C++ \<open>double\<close>.  A \<open>double\<close> is represented by the real number
  it stands for.  Where a property depends on how the machine rounds (the mesh motion and
  the point-in-solid test) every arithmetic operation of the source is followed by the
  rounding of section \<open>Double-precision arithmetic\<close>; elsewhere the quantities are
  carried as reals, and the concrete inputs used are small dyadic numbers or decimal
  fractions on which every comparison of the code has the same outcome in IEEE
  arithmetic.  A deal.II \<open>Point\<close> or \<open>Tensor<1,dim>\<close> is a list of \<open>dim\<close> coordinates, a
  \<open>Tensor<2,dim>\<close> a list of rows.  Every \<open>AssertThrow\<close> of the source, and every \<open>Assert\<close>
  on the paths modelled, is a value of the type \<open>error\<close>.
\<close>

datatype error =
    TooManyNewtonIterations
  | CannotFindPointInSolid "real list"
  | DifferentRestartTimes
  | WrongNumberOfCellData
  | AssertionFailed string

type_synonym point = "real list"
type_synonym tensor1 = "real list"
type_synonym tensor2 = "real list list"

section \<open>Double-precision arithmetic\<close>

text \<open>
  IEEE 754 binary64 with the default rounding: the result of an operation is the exact
  result rounded to the nearest number with a 53-bit significand, ties to the even
  significand; below \<open>2^-1022\<close> the spacing stays \<open>2^-1074\<close> (gradual underflow), so that a
  result of magnitude below \<open>2^-1075\<close> becomes zero.  Positive and negative zero are both
  the real \<open>0\<close> (they compare equal in C++).  Results beyond the largest \<open>double\<close>, which
  the machine replaces by an infinity, are outside this model: it describes the program
  on inputs whose operations stay in range.
\<close>

definition round_half_even :: "real \<Rightarrow> int" where
  "round_half_even y =
     (let f = \<lfloor>y\<rfloor> in
      if y - of_int f < 1/2 then f
      else if y - of_int f > 1/2 then f + 1
      else if even f then f else f + 1)"

text \<open>
  The exponent of the binade of \<open>r\<close>, not below that of the smallest normal number, and the
  spacing of the doubles in that binade.
\<close>

definition binade :: "real \<Rightarrow> int" where
  "binade r = max \<lfloor>log 2 \<bar>r\<bar>\<rfloor> (- 1022)"

definition ulp :: "real \<Rightarrow> real" where
  "ulp r = 2 powr of_int (binade r - 52)"

definition round_double :: "real \<Rightarrow> real" where
  "round_double r =
     (if r = 0 then 0 else of_int (round_half_even (r / ulp r)) * ulp r)"

text \<open>
  The operators \<open>+\<close>, \<open>-\<close>, \<open>*\<close> and \<open>/\<close> of C++ on \<open>double\<close>.
\<close>

definition fl_add :: "real \<Rightarrow> real \<Rightarrow> real" where
  "fl_add x y = round_double (x + y)"

definition fl_sub :: "real \<Rightarrow> real \<Rightarrow> real" where
  "fl_sub x y = round_double (x - y)"

definition fl_mul :: "real \<Rightarrow> real \<Rightarrow> real" where
  "fl_mul x y = round_double (x * y)"

definition fl_div :: "real \<Rightarrow> real \<Rightarrow> real" where
  "fl_div x y = round_double (x / y)"

section \<open>Newton iteration of the hyperelastic solvers (\<open>run_one_step\<close>)\<close>

text \<open>
  The part of \<open>Parameters::AllParameters\<close> read by the Newton loop.
\<close>

record newton_parameters =
  tol_d :: real
  tol_f :: real
  solid_max_iterations :: nat

text \<open>
  The local variables and members the loop of \<open>run_one_step\<close> reads and writes.
\<close>

record newton_state =
  newton_iteration :: nat
  error_residual :: real
  initial_error_residual :: real
  normalized_error_residual :: real
  error_update :: real
  initial_error_update :: real
  normalized_error_update :: real

text \<open>
  "Reset the errors, iteration counter, and the solution increment".
\<close>

definition newton_reset :: newton_state where
  "newton_reset =
     \<lparr>newton_iteration = 0,
      error_residual = 1, initial_error_residual = 1, normalized_error_residual = 1,
      error_update = 1, initial_error_update = 1, normalized_error_update = 1\<rparr>"

text \<open>
  One pass through the loop body after the assertion.  Assembly, the linear solve and the
  two norms are the solver's black boxes: \<open>errs k\<close> is the pair
  (\<open>error_residual\<close>, \<open>error_update\<close>) they deliver in pass \<open>k\<close>.  A quotient by an
  initial norm of zero is \<open>0\<close> here and NaN or infinity in IEEE arithmetic; the properties
  proved below do not depend on the value of the guard.
\<close>

definition newton_body :: "(nat \<Rightarrow> real \<times> real) \<Rightarrow> newton_state \<Rightarrow> newton_state" where
  "newton_body errs s =
     (let k = newton_iteration s;
          er = fst (errs k);
          ir = (if k = 0 then er else initial_error_residual s);
          eu = snd (errs k);
          iu = (if k = 0 then eu else initial_error_update s)
      in \<lparr>newton_iteration = k + 1,
          error_residual = er, initial_error_residual = ir,
          normalized_error_residual = er / ir,
          error_update = eu, initial_error_update = iu,
          normalized_error_update = eu / iu\<rparr>)"

text \<open>
  The loop guard of \<open>Solid::HyperElasticity::run_one_step\<close>.
\<close>

definition unconverged :: "newton_parameters \<Rightarrow> newton_state \<Rightarrow> bool" where
  "unconverged P s \<longleftrightarrow>
     (normalized_error_update s > tol_d P \<or> normalized_error_residual s > tol_f P) \<and>
     error_residual s > 1 / 10 ^ 12 \<and> error_update s > 1 / 10 ^ 12"

text \<open>
  The loop guard of \<open>Solid::MPI::SharedHyperElasticity::run_one_step\<close>, which tests
  \<open>error_update\<close> twice.
\<close>

definition shared_unconverged :: "newton_parameters \<Rightarrow> newton_state \<Rightarrow> bool" where
  "shared_unconverged P s \<longleftrightarrow>
     (normalized_error_update s > tol_d P \<or> normalized_error_residual s > tol_f P) \<and>
     error_update s > 1 / 10 ^ 12 \<and> error_update s > 1 / 10 ^ 12"

text \<open>
  The \<open>while\<close> loop with its \<open>AssertThrow\<close> at the top of the body; \<open>guard\<close> is one of the
  two loop guards above.
\<close>

function newton_loop ::
  "(newton_parameters \<Rightarrow> newton_state \<Rightarrow> bool) \<Rightarrow> newton_parameters \<Rightarrow>
   (nat \<Rightarrow> real \<times> real) \<Rightarrow> newton_state \<Rightarrow> error + newton_state" where
  "newton_loop guard P errs s =
     (if guard P s then
        (if newton_iteration s < solid_max_iterations P
         then newton_loop guard P errs (newton_body errs s)
         else Inl TooManyNewtonIterations)
      else Inr s)"
  by pat_completeness auto
termination
  by (relation "measure (\<lambda>(guard, P, errs, s). solid_max_iterations P - newton_iteration s)")
     (auto simp: newton_body_def Let_def)

text \<open>
  The Newton part of \<open>run_one_step\<close> of the two hyperelastic solvers: reset, then iterate.
  \<open>Inr s\<close> is a completed timestep whose counter \<open>newton_iteration s\<close> is the number of
  passes made.
\<close>

definition HyperElasticity_run_one_step ::
  "newton_parameters \<Rightarrow> (nat \<Rightarrow> real \<times> real) \<Rightarrow> error + newton_state" where
  "HyperElasticity_run_one_step P errs = newton_loop unconverged P errs newton_reset"

definition SharedHyperElasticity_run_one_step ::
  "newton_parameters \<Rightarrow> (nat \<Rightarrow> real \<times> real) \<Rightarrow> error + newton_state" where
  "SharedHyperElasticity_run_one_step P errs =
     newton_loop shared_unconverged P errs newton_reset"

text \<open>
  Sample inputs: a tolerance of \<open>1e-6\<close>, at most one Newton pass, and solves whose norms
  are \<open>1e-13\<close> (first sample) or stay at \<open>1\<close> (second sample).
\<close>

definition sample_newton_parameters :: newton_parameters where
  "sample_newton_parameters =
     \<lparr>tol_d = 1 / 10 ^ 6, tol_f = 1 / 10 ^ 6, solid_max_iterations = 1\<rparr>"

definition sample_small_errors :: "nat \<Rightarrow> real \<times> real" where
  "sample_small_errors k = (1 / 10 ^ 13, 1 / 10 ^ 13)"

definition sample_stalled_errors :: "nat \<Rightarrow> real \<times> real" where
  "sample_stalled_errors k = (1, 1)"

section \<open>Moving the solid mesh (\<open>FSI::move_solid_mesh\<close>)\<close>

text \<open>
  What \<open>move_solid_mesh\<close> reads of an active solid cell: \<open>cell->vertex_index(v)\<close> and
  \<open>cell->vertex_dof_index(v, d)\<close>.
\<close>

record solid_cell =
  vertex_index :: "nat list"
  vertex_dof_index :: "nat list list"

text \<open>
  The solid solver as the mesh motion sees it: the vertices of the triangulation (indexed
  by global vertex index), the active cells in iteration order, and \<open>current_displacement\<close>.
\<close>

record solid_mesh =
  vertices :: "point list"
  active_cells :: "solid_cell list"
  current_displacement :: "real list"

definition vertices_per_cell :: "nat \<Rightarrow> nat" where
  "vertices_per_cell sdim = 2 ^ sdim"

text \<open>
  The inner loop over \<open>d\<close> that fills \<open>vertex_displacement\<close> from the localized vector.
\<close>

definition vertex_displacement :: "nat \<Rightarrow> real list \<Rightarrow> nat list \<Rightarrow> point" where
  "vertex_displacement sdim localized_displacement dofs =
     map (\<lambda>d. localized_displacement ! (dofs ! d)) [0..<sdim]"

text \<open>
  The body of the loop over the vertices \<open>v\<close> of a cell; the state is the pair
  (\<open>vertex_touched\<close>, vertices of the triangulation).  \<open>cell->vertex(v) += vertex_displacement\<close>
  and \<open>-=\<close> add and subtract the coordinates as doubles, one rounding each.
\<close>

definition move_vertex ::
  "nat \<Rightarrow> bool \<Rightarrow> real list \<Rightarrow> solid_cell \<Rightarrow> nat \<Rightarrow> bool list \<times> point list \<Rightarrow>
   bool list \<times> point list" where
  "move_vertex sdim move_forward localized_displacement cell v st =
     (case st of (vertex_touched, verts) \<Rightarrow>
        let vi = vertex_index cell ! v in
        if \<not> vertex_touched ! vi then
          let vd = vertex_displacement sdim localized_displacement (vertex_dof_index cell ! v)
          in (vertex_touched[vi := True],
              verts[vi := (if move_forward then map2 fl_add (verts ! vi) vd
                           else map2 fl_sub (verts ! vi) vd)])
        else (vertex_touched, verts))"

definition move_solid_mesh :: "nat \<Rightarrow> bool \<Rightarrow> solid_mesh \<Rightarrow> solid_mesh" where
  "move_solid_mesh sdim move_forward m =
     (let localized_displacement = current_displacement m;
          vertex_touched = replicate (length (vertices m)) False
      in m\<lparr>vertices :=
            snd (fold (\<lambda>cell. fold (move_vertex sdim move_forward localized_displacement cell)
                                  [0..<vertices_per_cell sdim])
                   (active_cells m) (vertex_touched, vertices m))\<rparr>)"

text \<open>
  The index ranges deal.II guarantees (and checks in debug mode): points have \<open>sdim\<close>
  coordinates, every cell has \<open>2^sdim\<close> vertices with \<open>sdim\<close> dofs each, vertex indices
  are below \<open>n_vertices()\<close> and dof indices below the size of the displacement vector.
\<close>

definition wf_solid_mesh :: "nat \<Rightarrow> solid_mesh \<Rightarrow> bool" where
  "wf_solid_mesh sdim m \<longleftrightarrow>
     (\<forall>p \<in> set (vertices m). length p = sdim) \<and>
     (\<forall>cell \<in> set (active_cells m).
        length (vertex_index cell) = vertices_per_cell sdim \<and>
        length (vertex_dof_index cell) = vertices_per_cell sdim \<and>
        (\<forall>vi \<in> set (vertex_index cell). vi < length (vertices m)) \<and>
        (\<forall>dofs \<in> set (vertex_dof_index cell).
           length dofs = sdim \<and> (\<forall>i \<in> set dofs. i < length (current_displacement m))))"

text \<open>
  The references (vertex index, dofs of that vertex) in the order the two nested loops
  visit them; \<open>map_of\<close> of this list gives, for a vertex, the dofs read when it is
  first reached.
\<close>

definition vertex_refs :: "nat \<Rightarrow> solid_cell list \<Rightarrow> (nat \<times> nat list) list" where
  "vertex_refs sdim cs =
     concat (map (\<lambda>cell. map (\<lambda>v. (vertex_index cell ! v, vertex_dof_index cell ! v))
                            [0..<vertices_per_cell sdim]) cs)"

text \<open>
  Auxiliary forms used in the proofs: the loop body on a reference, and a point shifted
  forward or backward.
\<close>

definition move_ref ::
  "nat \<Rightarrow> bool \<Rightarrow> real list \<Rightarrow> nat \<times> nat list \<Rightarrow> bool list \<times> point list \<Rightarrow>
   bool list \<times> point list" where
  "move_ref sdim fwd disp r st =
     (case st of (touched, verts) \<Rightarrow>
        if \<not> touched ! fst r then
          (touched[fst r := True],
           verts[fst r :=
             (if fwd then map2 fl_add (verts ! fst r) (vertex_displacement sdim disp (snd r))
              else map2 fl_sub (verts ! fst r) (vertex_displacement sdim disp (snd r)))])
        else (touched, verts))"

definition shifted :: "nat \<Rightarrow> bool \<Rightarrow> real list \<Rightarrow> point \<Rightarrow> nat list \<Rightarrow> point" where
  "shifted sdim fwd disp p dofs =
     (if fwd then map2 fl_add p (vertex_displacement sdim disp dofs)
      else map2 fl_sub p (vertex_displacement sdim disp dofs))"

text \<open>
  The magnitudes for which no sum or difference of the two calls leaves the range of
  \<open>double\<close>: coordinates and displacements up to \<open>2^1022\<close>.
\<close>

definition mesh_in_range :: "solid_mesh \<Rightarrow> bool" where
  "mesh_in_range m \<longleftrightarrow>
     (\<forall>p \<in> set (vertices m). \<forall>x \<in> set p. \<bar>x\<bar> \<le> 2 ^ 1022) \<and>
     (\<forall>d \<in> set (current_displacement m). \<bar>d\<bar> \<le> 2 ^ 1022)"

text \<open>
  A coordinate \<open>x\<close> moved forward by \<open>d\<close> and back, and the bound on the two rounding
  errors this can leave: half a unit in the last place of each of the two results.
\<close>

definition moved_and_restored :: "real \<Rightarrow> real \<Rightarrow> real" where
  "moved_and_restored x d = fl_sub (fl_add x d) d"

definition restore_tolerance :: "real \<Rightarrow> real \<Rightarrow> real" where
  "restore_tolerance x d = (\<bar>x + d\<bar> + \<bar>fl_add x d - d\<bar>) / 2 ^ 53 + 1 / 2 ^ 1074"

text \<open>
  A sample mesh: two quadrilaterals side by side sharing the vertices 1 and 4; and a
  one-cell mesh whose vertex 1, at \<open>(1, 0)\<close>, is displaced by \<open>2^53\<close> along \<open>x\<close>.
\<close>

definition sample_solid_mesh :: solid_mesh where
  "sample_solid_mesh =
     \<lparr>vertices = [[0, 0], [1, 0], [2, 0], [0, 1], [1, 1], [2, 1]],
      active_cells =
        [\<lparr>vertex_index = [0, 1, 3, 4], vertex_dof_index = [[0, 1], [2, 3], [6, 7], [8, 9]]\<rparr>,
         \<lparr>vertex_index = [1, 2, 4, 5], vertex_dof_index = [[2, 3], [4, 5], [8, 9], [10, 11]]\<rparr>],
      current_displacement = [1/2, 0, 1/4, 1/8, 0, 0, 1, 2, 3, 4, 5, 6]\<rparr>"

definition sample_far_displaced_mesh :: solid_mesh where
  "sample_far_displaced_mesh =
     \<lparr>vertices = [[0, 0], [1, 0], [0, 1], [1, 1]],
      active_cells =
        [\<lparr>vertex_index = [0, 1, 2, 3], vertex_dof_index = [[0, 1], [2, 3], [4, 5], [6, 7]]\<rparr>],
      current_displacement = [0, 0, 9007199254740992, 0, 0, 0, 0, 0]\<rparr>"

section \<open>The point-in-solid test (\<open>FSI::point_in_solid\<close>)\<close>

text \<open>
  A boundary face of the 2-D solid is the pair (\<open>vertex(0)\<close>, \<open>vertex(1)\<close>).  \<open>solid_box\<close>
  is the cached vector of \<open>2 * dim\<close> bounds (min and max per axis).
\<close>

type_synonym segment = "point \<times> point"

text \<open>
  The first loop: "Check whether the point is in the solid box first".
\<close>

definition outside_solid_box :: "nat \<Rightarrow> real list \<Rightarrow> point \<Rightarrow> bool" where
  "outside_solid_box sdim solid_box pt \<longleftrightarrow>
     list_ex (\<lambda>i. pt ! i < solid_box ! (2 * i) \<or> pt ! i > solid_box ! (2 * i + 1)) [0..<sdim]"

text \<open>
  The value \<open>r2[0] + p2(0)\<close>: \<open>r1 = p1 - p2\<close>, and \<open>r2 = r1 * (point(1) - p2(1)) / r1[1]\<close>
  unless the face is horizontal, in which case \<open>r2\<close> keeps its initial zero.
\<close>

definition r2_0_plus_p2_0 :: "point \<Rightarrow> segment \<Rightarrow> real" where
  "r2_0_plus_p2_0 pt f =
     (case f of (p1, p2) \<Rightarrow>
        let r1_0 = p1 ! 0 - p2 ! 0;
            r1_1 = p1 ! 1 - p2 ! 1;
            r2_0 = (if r1_1 \<noteq> 0 then r1_0 * (pt ! 1 - p2 ! 1) / r1_1 else 0)
        in r2_0 + p2 ! 0)"

text \<open>
  The loop over \<open>solid_boundaries\<close> with its two counters and its early returns, then the
  parity test.  The counters are \<open>unsigned int\<close> in the source; they are bounded by the
  number of boundary faces, so they do not wrap.
\<close>

fun crossing_loop :: "real list \<Rightarrow> point \<Rightarrow> segment list \<Rightarrow> nat \<Rightarrow> nat \<Rightarrow> bool" where
  "crossing_loop solid_box pt [] cross_number half_cross_number =
     (let cross_number = cross_number + half_cross_number div 2
      in if cross_number mod 2 = 0 then False else True)"
| "crossing_loop solid_box pt (f # fs) cross_number half_cross_number =
     (case f of (p1, p2) \<Rightarrow>
        let y_diff1 = p1 ! 1 - pt ! 1;
            y_diff2 = p2 ! 1 - pt ! 1;
            x_diff1 = p1 ! 0 - pt ! 0;
            x_diff2 = p2 ! 0 - pt ! 0
        in
        if y_diff1 * y_diff2 < 0 then
          (if r2_0_plus_p2_0 pt f > pt ! 0
             then crossing_loop solid_box pt fs (cross_number + 1) half_cross_number
           else if r2_0_plus_p2_0 pt f = pt ! 0 then True
           else crossing_loop solid_box pt fs cross_number half_cross_number)
        else if y_diff1 * y_diff2 = 0 then
          (if y_diff1 = 0 \<and> y_diff2 = 0 then
             (if x_diff1 * x_diff2 < 0 then True
              else crossing_loop solid_box pt fs cross_number half_cross_number)
           else if r2_0_plus_p2_0 pt f > pt ! 0 then
             (if pt ! 1 \<noteq> solid_box ! 2 \<and> pt ! 1 \<noteq> solid_box ! 3
                then crossing_loop solid_box pt fs cross_number (half_cross_number + 1)
              else crossing_loop solid_box pt fs cross_number half_cross_number)
           else if pt = p1 \<or> pt = p2 then True
           else crossing_loop solid_box pt fs cross_number half_cross_number)
        else crossing_loop solid_box pt fs cross_number half_cross_number)"

text \<open>
  \<open>point_in_solid\<close>: box test, then the crossing test in 2-D, and in other dimensions the
  loop over the active cells of \<open>df\<close>, each given by its \<open>point_inside\<close> predicate.
\<close>

definition point_in_solid ::
  "nat \<Rightarrow> real list \<Rightarrow> segment list \<Rightarrow> (point \<Rightarrow> bool) list \<Rightarrow> point \<Rightarrow> bool" where
  "point_in_solid sdim solid_box solid_boundaries df pt =
     (if outside_solid_box sdim solid_box pt then False
      else if sdim = 2 then crossing_loop solid_box pt solid_boundaries 0 0
      else list_ex (\<lambda>point_inside. point_inside pt) df)"






text \<open>
  Sample boundaries: an axis-parallel rectangle meshed by one cell, and the rectangle
  \<open>[0,2] \<times> [0,1]\<close> meshed by two cells side by side (faces in the order
  \<open>collect_solid_boundaries\<close> stores them).
\<close>

definition rectangle_boundaries :: "real \<Rightarrow> real \<Rightarrow> real \<Rightarrow> real \<Rightarrow> segment list" where
  "rectangle_boundaries x0 x1 y0 y1 =
     [([x0, y0], [x0, y1]), ([x1, y0], [x1, y1]), ([x0, y0], [x1, y0]), ([x0, y1], [x1, y1])]"


section \<open>The coupling driver (\<open>FSI::run\<close>)\<close>

text \<open>
  The solvers and the transfer routines are driven by \<open>run\<close>; each call it makes is
  recorded as an event, in program order.
\<close>

datatype event =
    SolidRefineGlobal
  | SolidLoadCheckpoint
  | FluidLoadCheckpoint
  | SolidSetupDofs
  | SolidInitializeSystem
  | FluidRefineGlobal
  | FluidSetupDofs
  | FluidMakeConstraints
  | FluidInitializeSystem
  | CollectSolidBoundaries
  | SetupCellHints
  | RefineMesh
  | FindSolidBC
  | SolidAssembleSystem bool
  | SolidRunOneStep bool
  | UpdateSolidBox
  | NonzeroConstraintsClear
  | NonzeroConstraintsCopyFromZero
  | FindFluidBC
  | FluidRunOneStep bool
  | TimeIncrement
  | SolidSaveCheckpoint nat
  | FluidSaveCheckpoint nat

text \<open>
  What \<open>run\<close> reads from its surroundings.  \<open>solid_load\<close> is the result of
  \<open>solid_solver.load_checkpoint()\<close> together with the time and timestep the solid solver
  reports afterwards; \<open>fluid_load\<close> likewise for the fluid solver when its load is
  attempted, and \<open>fluid_time_unloaded\<close> is the fluid time when it is not (the \<open>&&\<close> skips
  it).  \<open>time_to_refine\<close> and \<open>time_to_save\<close> are the predicates of the time object, as
  functions of its timestep.  \<open>throws n ev\<close> tells whether the call \<open>ev\<close> made at timestep
  \<open>n\<close> throws.
\<close>

record fsi_parameters =
  end_time :: real
  time_step :: real
  refinement_interval :: real
  time_to_refine :: "nat \<Rightarrow> bool"
  time_to_save :: "nat \<Rightarrow> bool"
  solid_load :: "bool \<times> real \<times> nat"
  fluid_load :: "bool \<times> real"
  fluid_time_unloaded :: real
  throws :: "nat \<Rightarrow> event \<Rightarrow> error option"

text \<open>
  The state of \<open>run\<close>: the time object of the FSI class (current time and timestep), the
  two local flags, and the calls made so far.
\<close>

record fsi_state =
  time_current :: real
  timestep :: nat
  first_step :: bool
  success_load :: bool
  trace :: "event list"

text \<open>
  A failure carries the calls made up to and including the one that threw.
\<close>

type_synonym 'a result = "(error \<times> event list) + 'a"

definition call :: "fsi_parameters \<Rightarrow> event \<Rightarrow> fsi_state \<Rightarrow> fsi_state result" where
  "call P ev s =
     (case throws P (timestep s) ev of
        Some e \<Rightarrow> Inl (e, trace s @ [ev])
      | None \<Rightarrow> Inr (s\<lparr>trace := trace s @ [ev]\<rparr>))"

text \<open>
  Statements in sequence; the first failure ends the run.
\<close>

fun seq :: "(fsi_state \<Rightarrow> fsi_state result) list \<Rightarrow> fsi_state \<Rightarrow> fsi_state result" where
  "seq [] s = Inr s"
| "seq (c # cs) s = (case c s of Inl e \<Rightarrow> Inl e | Inr s' \<Rightarrow> seq cs s')"

text \<open>
  Modelled from the spec: \<open>Utils::Time\<close> is not among the sources; the spec describes it as
  "a time object exposing current time, step index" and the loop as advancing global
  time, so \<open>increment\<close> adds the time step to the current time and one to the timestep.
\<close>

definition time_increment :: "fsi_parameters \<Rightarrow> fsi_state \<Rightarrow> fsi_state" where
  "time_increment P s =
     s\<lparr>time_current := time_current s + time_step P, timestep := timestep s + 1,
       trace := trace s @ [TimeIncrement]\<rparr>"

text \<open>
  The guard \<open>time.end() - time.current() > 1e-12\<close> and the body of the time loop.
\<close>

definition time_loop_guard :: "fsi_parameters \<Rightarrow> fsi_state \<Rightarrow> bool" where
  "time_loop_guard P s \<longleftrightarrow> end_time P - time_current s > 1 / 10 ^ 12"

definition time_step_body :: "fsi_parameters \<Rightarrow> fsi_state \<Rightarrow> fsi_state result" where
  "time_step_body P =
     seq [call P FindSolidBC,
          (\<lambda>s. if success_load s then call P (SolidAssembleSystem True) s else Inr s),
          (\<lambda>s. call P (SolidRunOneStep (first_step s)) s),
          call P UpdateSolidBox,
          call P FluidMakeConstraints,
          (\<lambda>s. if \<not> first_step s
                then seq [call P NonzeroConstraintsClear,
                          call P NonzeroConstraintsCopyFromZero] s
                else Inr s),
          call P FindFluidBC,
          call P (FluidRunOneStep True),
          (\<lambda>s. Inr (s\<lparr>first_step := False\<rparr>)),
          (\<lambda>s. Inr (time_increment P s)),
          (\<lambda>s. if time_to_refine P (timestep s)
                then seq [call P RefineMesh, call P SetupCellHints] s
                else Inr s),
          (\<lambda>s. if time_to_save P (timestep s)
                then seq [call P (SolidSaveCheckpoint (timestep s)),
                          call P (FluidSaveCheckpoint (timestep s))] s
                else Inr s)]"

text \<open>
  The \<open>while\<close> loop; \<open>None\<close> is a run that never leaves it.
\<close>

partial_function (option) time_loop :: "fsi_parameters \<Rightarrow> fsi_state \<Rightarrow> fsi_state result option" where
  "time_loop P s =
     (if time_loop_guard P s then
        (case time_step_body P s of
           Inl e \<Rightarrow> Some (Inl e)
         | Inr s' \<Rightarrow> time_loop P s')
      else Some (Inr s))"

text \<open>
  The loop \<open>while (time.get_timestep() < solid_solver.time.get_timestep()) time.increment()\<close>.
\<close>

function catch_up :: "fsi_parameters \<Rightarrow> nat \<Rightarrow> fsi_state \<Rightarrow> fsi_state" where
  "catch_up P solid_timestep s =
     (if timestep s < solid_timestep then catch_up P solid_timestep (time_increment P s) else s)"
  by pat_completeness auto
termination
  by (relation "measure (\<lambda>(P, n, s). n - timestep s)") (auto simp: time_increment_def)

declare catch_up.simps [simp del]

text \<open>
  The two times compared by the \<open>AssertThrow\<close>, and the value of \<open>success_load\<close>.
\<close>

definition restart_times :: "fsi_parameters \<Rightarrow> real \<times> real" where
  "restart_times P =
     (case solid_load P of (ok_s, t_s, n_s) \<Rightarrow>
        (t_s, if ok_s then snd (fluid_load P) else fluid_time_unloaded P))"

definition loaded :: "fsi_parameters \<Rightarrow> bool" where
  "loaded P \<longleftrightarrow> fst (solid_load P) \<and> fst (fluid_load P)"

text \<open>
  \<open>run\<close> up to the time loop.
\<close>

definition initialize :: "fsi_parameters \<Rightarrow> fsi_state \<Rightarrow> fsi_state result" where
  "initialize P =
     seq [call P SolidRefineGlobal,
          call P SolidLoadCheckpoint,
          (\<lambda>s. if fst (solid_load P) then call P FluidLoadCheckpoint s else Inr s),
          (\<lambda>s. Inr (s\<lparr>success_load := loaded P\<rparr>)),
          (\<lambda>s. if fst (restart_times P) = snd (restart_times P) then Inr s
                else Inl (DifferentRestartTimes, trace s)),
          (\<lambda>s. if \<not> success_load s
                then seq [call P SolidSetupDofs, call P SolidInitializeSystem,
                          call P FluidRefineGlobal, call P FluidSetupDofs,
                          call P FluidMakeConstraints, call P FluidInitializeSystem] s
                else Inr (catch_up P (snd (snd (solid_load P))) s)),
          call P CollectSolidBoundaries,
          call P SetupCellHints,
          (\<lambda>s. Inr (s\<lparr>first_step := \<not> success_load s\<rparr>)),
          (\<lambda>s. if refinement_interval P < end_time P
                then seq [call P RefineMesh, call P SetupCellHints] s
                else Inr s)]"

definition run :: "fsi_parameters \<Rightarrow> fsi_state \<Rightarrow> fsi_state result option" where
  "run P s = (case initialize P s of Inl e \<Rightarrow> Some (Inl e) | Inr s' \<Rightarrow> time_loop P s')"

text \<open>
  No collaborator throws.
\<close>

definition quiet :: "fsi_parameters \<Rightarrow> bool" where
  "quiet P \<longleftrightarrow> (\<forall>n ev. throws P n ev = None)"

text \<open>
  The calls of one pass through the loop body and the state after it, when nothing throws.
\<close>

definition step_events :: "fsi_parameters \<Rightarrow> fsi_state \<Rightarrow> event list" where
  "step_events P s =
     [FindSolidBC] @
     (if success_load s then [SolidAssembleSystem True] else []) @
     [SolidRunOneStep (first_step s), UpdateSolidBox, FluidMakeConstraints] @
     (if first_step s then [] else [NonzeroConstraintsClear, NonzeroConstraintsCopyFromZero]) @
     [FindFluidBC, FluidRunOneStep True, TimeIncrement] @
     (if time_to_refine P (timestep s + 1) then [RefineMesh, SetupCellHints] else []) @
     (if time_to_save P (timestep s + 1)
      then [SolidSaveCheckpoint (timestep s + 1), FluidSaveCheckpoint (timestep s + 1)] else [])"

definition step_ok :: "fsi_parameters \<Rightarrow> fsi_state \<Rightarrow> fsi_state" where
  "step_ok P s =
     s\<lparr>time_current := time_current s + time_step P, timestep := timestep s + 1,
       first_step := False, trace := trace s @ step_events P s\<rparr>"

text \<open>
  The calls before the time check, and those of the refinement before the loop.
\<close>

definition load_events :: "fsi_parameters \<Rightarrow> event list" where
  "load_events P =
     [SolidRefineGlobal, SolidLoadCheckpoint] @
     (if fst (solid_load P) then [FluidLoadCheckpoint] else [])"

definition first_refinement_events :: "fsi_parameters \<Rightarrow> event list" where
  "first_refinement_events P =
     (if refinement_interval P < end_time P then [RefineMesh, SetupCellHints] else [])"

text \<open>
  Sample inputs: a fresh state and a run to \<open>end_time = 1\<close> in steps of \<open>1/2\<close>, without
  refinement, saving or failures.
\<close>

definition fresh_fsi_state :: fsi_state where
  "fresh_fsi_state =
     \<lparr>time_current = 0, timestep = 0, first_step = True, success_load = False, trace = []\<rparr>"

definition sample_run_parameters :: "bool \<times> real \<times> nat \<Rightarrow> bool \<times> real \<Rightarrow> fsi_parameters" where
  "sample_run_parameters sl fl =
     \<lparr>end_time = 1, time_step = 1/2, refinement_interval = 2,
      time_to_refine = (\<lambda>n. False), time_to_save = (\<lambda>n. False),
      solid_load = sl, fluid_load = fl, fluid_time_unloaded = 0,
      throws = (\<lambda>n ev. None)\<rparr>"

section \<open>Neumann loads in the solid assembly (\<open>assemble_system\<close>)\<close>

text \<open>
  The parameters the Neumann part of \<open>assemble_system\<close> reads.  \<open>solid_neumann_bcs\<close> is the
  \<open>std::map\<close> from boundary id to prescribed values.
\<close>

record neumann_parameters =
  simulation_type :: string
  solid_neumann_bcs :: "nat \<rightharpoonup> real list"
  solid_neumann_bc_type :: string

text \<open>
  The finite element: \<open>fe.dofs_per_cell\<close>, \<open>face_quad_formula.size()\<close> and
  \<open>fe.system_to_component_index(j).first\<close>.
\<close>

record fe_info =
  dofs_per_cell :: nat
  n_f_q_points :: nat
  system_to_component_index :: "nat \<Rightarrow> nat"

text \<open>
  A solid cell as the assembly sees it: its owner, its faces (\<open>at_boundary()\<close> and
  \<open>boundary_id()\<close> by face number), the \<open>fsi_traction\<close> entries of its cell property
  records, \<open>local_rhs\<close> as the volume integration leaves it, and what \<open>fe_face_values\<close>
  delivers after \<open>reinit(cell, face)\<close>.
\<close>

record assembly_cell =
  subdomain_id :: nat
  at_boundary :: "nat \<Rightarrow> bool"
  boundary_id :: "nat \<Rightarrow> nat"
  fsi_traction :: "tensor1 list"
  volume_rhs :: "real list"
  shape_value :: "nat \<Rightarrow> nat \<Rightarrow> nat \<Rightarrow> real"
  JxW :: "nat \<Rightarrow> nat \<Rightarrow> real"
  normal_vector :: "nat \<Rightarrow> nat \<Rightarrow> tensor1"

definition faces_per_cell :: "nat \<Rightarrow> nat" where
  "faces_per_cell sdim = 2 * sdim"

text \<open>
  The innermost loop over \<open>j\<close>: "+external force".
\<close>

definition add_surface_load ::
  "fe_info \<Rightarrow> assembly_cell \<Rightarrow> nat \<Rightarrow> nat \<Rightarrow> tensor1 \<Rightarrow> real list \<Rightarrow> real list" where
  "add_surface_load fe cell face q traction local_rhs =
     fold (\<lambda>j rhs. rhs[j := rhs ! j +
                           shape_value cell face j q *
                           traction ! system_to_component_index fe j *
                           JxW cell face q])
          [0..<dofs_per_cell fe] local_rhs"

text \<open>
  The body of the loop over the face quadrature points: choice of the traction, then the
  load.  The state is (\<open>traction\<close>, \<open>local_rhs\<close>).
\<close>

definition neumann_q_body ::
  "neumann_parameters \<Rightarrow> fe_info \<Rightarrow> assembly_cell \<Rightarrow> nat \<Rightarrow> real list \<Rightarrow> nat \<Rightarrow>
   tensor1 \<times> real list \<Rightarrow> tensor1 \<times> real list" where
  "neumann_q_body P fe cell face prescribed_value q st =
     (case st of (traction, local_rhs) \<Rightarrow>
        let traction =
              (if simulation_type P \<noteq> ''FSI'' \<and> solid_neumann_bc_type P = ''Pressure''
                 then map (\<lambda>c. c * prescribed_value ! 0) (normal_vector cell face q)
               else if simulation_type P = ''FSI''
                 then fsi_traction cell ! (face * n_f_q_points fe + q)
               else traction)
        in (traction, add_surface_load fe cell face q traction local_rhs))"

text \<open>
  The body of the loop over the faces.  The three solvers have the same text here, up to
  the order of two declarations (\<open>SharedLinearElasticity\<close> wraps it in a second, redundant
  test of \<open>at_boundary()\<close>).  \<open>parameters.solid_neumann_bcs[id]\<close> is \<open>operator[]\<close> of
  \<open>std::map\<close>, which yields an empty vector for a missing key.
\<close>

definition neumann_face_body ::
  "nat \<Rightarrow> neumann_parameters \<Rightarrow> fe_info \<Rightarrow> assembly_cell \<Rightarrow> nat \<Rightarrow> real list \<Rightarrow> real list" where
  "neumann_face_body sdim P fe cell face local_rhs =
     (let id = boundary_id cell face in
      if \<not> at_boundary cell face then local_rhs
      else if simulation_type P \<noteq> ''FSI'' \<and> solid_neumann_bcs P id = None then local_rhs
      else
        let prescribed_value =
              (if simulation_type P \<noteq> ''FSI''
                 then (case solid_neumann_bcs P id of Some v \<Rightarrow> v | None \<Rightarrow> [])
               else []);
            traction =
              (if simulation_type P \<noteq> ''FSI'' \<and> solid_neumann_bc_type P = ''Traction''
                 then map (\<lambda>i. prescribed_value ! i) [0..<sdim]
               else replicate sdim 0)
        in snd (fold (neumann_q_body P fe cell face prescribed_value)
                  [0..<n_f_q_points fe] (traction, local_rhs)))"

text \<open>
  One cell: the check of the number of cell property records, then the loop over the faces.
\<close>

definition cell_local_rhs ::
  "nat \<Rightarrow> neumann_parameters \<Rightarrow> fe_info \<Rightarrow> assembly_cell \<Rightarrow> error + real list" where
  "cell_local_rhs sdim P fe cell =
     (if length (fsi_traction cell) \<noteq> n_f_q_points fe * faces_per_cell sdim
        then Inl WrongNumberOfCellData
      else Inr (fold (neumann_face_body sdim P fe cell) [0..<faces_per_cell sdim]
                  (volume_rhs cell)))"

text \<open>
  The loops over the cells; the result lists the \<open>local_rhs\<close> vectors handed to
  \<open>distribute_local_to_global\<close>, in order.  The serial solver visits every active cell,
  the two shared solvers the cells whose \<open>subdomain_id()\<close> is \<open>this_mpi_process\<close>.
\<close>

fun HyperElasticity_assemble_system ::
  "nat \<Rightarrow> neumann_parameters \<Rightarrow> fe_info \<Rightarrow> assembly_cell list \<Rightarrow> error + real list list" where
  "HyperElasticity_assemble_system sdim P fe [] = Inr []"
| "HyperElasticity_assemble_system sdim P fe (cell # cells) =
     (case cell_local_rhs sdim P fe cell of
        Inl e \<Rightarrow> Inl e
      | Inr local_rhs \<Rightarrow>
          (case HyperElasticity_assemble_system sdim P fe cells of
             Inl e \<Rightarrow> Inl e
           | Inr rest \<Rightarrow> Inr (local_rhs # rest)))"

fun SharedHyperElasticity_assemble_system ::
  "nat \<Rightarrow> neumann_parameters \<Rightarrow> fe_info \<Rightarrow> nat \<Rightarrow> assembly_cell list \<Rightarrow>
   error + real list list" where
  "SharedHyperElasticity_assemble_system sdim P fe this_mpi_process [] = Inr []"
| "SharedHyperElasticity_assemble_system sdim P fe this_mpi_process (cell # cells) =
     (if subdomain_id cell \<noteq> this_mpi_process
        then SharedHyperElasticity_assemble_system sdim P fe this_mpi_process cells
      else
        (case cell_local_rhs sdim P fe cell of
           Inl e \<Rightarrow> Inl e
         | Inr local_rhs \<Rightarrow>
             (case SharedHyperElasticity_assemble_system sdim P fe this_mpi_process cells of
                Inl e \<Rightarrow> Inl e
              | Inr rest \<Rightarrow> Inr (local_rhs # rest))))"

fun SharedLinearElasticity_assemble_system ::
  "nat \<Rightarrow> neumann_parameters \<Rightarrow> fe_info \<Rightarrow> nat \<Rightarrow> assembly_cell list \<Rightarrow>
   error + real list list" where
  "SharedLinearElasticity_assemble_system sdim P fe this_mpi_process [] = Inr []"
| "SharedLinearElasticity_assemble_system sdim P fe this_mpi_process (cell # cells) =
     (if subdomain_id cell = this_mpi_process
        then
          (case cell_local_rhs sdim P fe cell of
             Inl e \<Rightarrow> Inl e
           | Inr local_rhs \<Rightarrow>
               (case SharedLinearElasticity_assemble_system sdim P fe this_mpi_process cells of
                  Inl e \<Rightarrow> Inl e
                | Inr rest \<Rightarrow> Inr (local_rhs # rest)))
      else SharedLinearElasticity_assemble_system sdim P fe this_mpi_process cells)"

text \<open>
  The load of the stored tractions on one face and on one cell, and the check of the
  \<open>Assert\<close> as a predicate.
\<close>

definition fsi_face_load :: "fe_info \<Rightarrow> assembly_cell \<Rightarrow> nat \<Rightarrow> real list \<Rightarrow> real list" where
  "fsi_face_load fe cell face local_rhs =
     fold (\<lambda>q. add_surface_load fe cell face q (fsi_traction cell ! (face * n_f_q_points fe + q)))
          [0..<n_f_q_points fe] local_rhs"

definition fsi_cell_rhs :: "nat \<Rightarrow> fe_info \<Rightarrow> assembly_cell \<Rightarrow> real list" where
  "fsi_cell_rhs sdim fe cell =
     fold (\<lambda>face rhs. if at_boundary cell face then fsi_face_load fe cell face rhs else rhs)
          [0..<faces_per_cell sdim] (volume_rhs cell)"

definition cell_data_ok :: "nat \<Rightarrow> fe_info \<Rightarrow> assembly_cell \<Rightarrow> bool" where
  "cell_data_ok sdim fe cell \<longleftrightarrow>
     length (fsi_traction cell) = n_f_q_points fe * faces_per_cell sdim"

text \<open>
  Sample inputs: one cell whose face 1 is at the boundary with an id that is in no
  Neumann set, one face quadrature point, two dofs.
\<close>

definition sample_fsi_parameters :: neumann_parameters where
  "sample_fsi_parameters =
     \<lparr>simulation_type = ''FSI'', solid_neumann_bcs = Map.empty,
      solid_neumann_bc_type = ''Traction''\<rparr>"

definition sample_fe :: fe_info where
  "sample_fe = \<lparr>dofs_per_cell = 2, n_f_q_points = 1, system_to_component_index = (\<lambda>j. j)\<rparr>"

definition sample_assembly_cell :: assembly_cell where
  "sample_assembly_cell =
     \<lparr>subdomain_id = 0, at_boundary = (\<lambda>face. face = 1), boundary_id = (\<lambda>face. 7),
      fsi_traction = [[0, 0], [3, 4], [0, 0], [0, 0]], volume_rhs = [1, 1],
      shape_value = (\<lambda>face j q. 1), JxW = (\<lambda>face q. 1/2),
      normal_vector = (\<lambda>face q. [1, 0])\<rparr>"

section \<open>Fluid-to-solid traction transfer (\<open>FSI::find_solid_bc\<close>)\<close>

text \<open>
  Tensor arithmetic: the symmetrised gradient, the stress \<open>-p I + 2 \<mu> sym\<close>, and the
  product of a rank-2 tensor with a vector.
\<close>

definition sym_deformation :: "nat \<Rightarrow> tensor1 list \<Rightarrow> tensor2" where
  "sym_deformation sdim global_gradient =
     map (\<lambda>i. map (\<lambda>j. (global_gradient ! i ! j + global_gradient ! j ! i) / 2) [0..<sdim])
         [0..<sdim]"

definition fluid_stress :: "nat \<Rightarrow> real \<Rightarrow> real \<Rightarrow> tensor2 \<Rightarrow> tensor2" where
  "fluid_stress sdim viscosity p sym_grad =
     map (\<lambda>i. map (\<lambda>j. - p * (if i = j then 1 else 0) + 2 * viscosity * sym_grad ! i ! j)
                [0..<sdim])
         [0..<sdim]"

definition contract :: "tensor2 \<Rightarrow> tensor1 \<Rightarrow> tensor1" where
  "contract stress normal = map (\<lambda>row. sum_list (map2 (*) row normal)) stress"

text \<open>
  \<open>Utilities::MPI::sum\<close>: the sum of the values the ranks of the communicator hold.
\<close>

definition MPI_sum :: "'a list \<Rightarrow> ('a \<Rightarrow> real) \<Rightarrow> real" where
  "MPI_sum ranks local_value = sum_list (map local_value ranks)"

text \<open>
  What the grid interpolator delivers on each rank for the fluid's \<open>present_solution\<close> at
  a point: \<open>dim + 1\<close> values (velocity, pressure) and their gradients.
\<close>

record fluid_interpolation =
  mpi_ranks :: "nat list"
  point_value :: "nat \<Rightarrow> point \<Rightarrow> real list"
  point_gradient :: "nat \<Rightarrow> point \<Rightarrow> tensor1 list"

text \<open>
  A solid cell as the traction transfer sees it: its faces (\<open>at_boundary()\<close>, the boundary
  id, quadrature points and normals of \<open>fe_face_values\<close>) and the \<open>fsi_traction\<close> entries
  of its cell property records.  The boundary id is not read by \<open>find_solid_bc\<close>.
\<close>

record traction_cell =
  face_at_boundary :: "nat \<Rightarrow> bool"
  face_boundary_id :: "nat \<Rightarrow> nat"
  face_quadrature_point :: "nat \<Rightarrow> nat \<Rightarrow> point"
  face_normal_vector :: "nat \<Rightarrow> nat \<Rightarrow> tensor1"
  cell_fsi_traction :: "tensor1 list"

text \<open>
  The body of the loop over the face quadrature points, up to the assignment.
\<close>

definition face_traction ::
  "nat \<Rightarrow> real \<Rightarrow> fluid_interpolation \<Rightarrow> point \<Rightarrow> tensor1 \<Rightarrow> tensor1" where
  "face_traction sdim viscosity fluid q_point normal =
     (let global_value =
            map (\<lambda>i. MPI_sum (mpi_ranks fluid) (\<lambda>r. point_value fluid r q_point ! i))
                [0..<sdim + 1];
          global_gradient =
            map (\<lambda>i. map (\<lambda>j. MPI_sum (mpi_ranks fluid)
                                  (\<lambda>r. point_gradient fluid r q_point ! i ! j)) [0..<sdim])
                [0..<sdim + 1];
          stress = fluid_stress sdim viscosity (global_value ! sdim)
                     (sym_deformation sdim global_gradient)
      in contract stress normal)"

text \<open>
  The loop over the faces of a cell and the loop over the solid cells.
\<close>

definition find_solid_bc_face ::
  "nat \<Rightarrow> real \<Rightarrow> nat \<Rightarrow> fluid_interpolation \<Rightarrow> nat \<Rightarrow> traction_cell \<Rightarrow> traction_cell" where
  "find_solid_bc_face sdim viscosity n_face_q_points fluid f s_cell =
     (if face_at_boundary s_cell f then
        fold (\<lambda>q cell.
                cell\<lparr>cell_fsi_traction :=
                  (cell_fsi_traction cell)[f * n_face_q_points + q :=
                     face_traction sdim viscosity fluid
                       (face_quadrature_point cell f q) (face_normal_vector cell f q)]\<rparr>)
             [0..<n_face_q_points] s_cell
      else s_cell)"

definition find_solid_bc ::
  "nat \<Rightarrow> real \<Rightarrow> nat \<Rightarrow> fluid_interpolation \<Rightarrow> traction_cell list \<Rightarrow> traction_cell list" where
  "find_solid_bc sdim viscosity n_face_q_points fluid s_cells =
     map (\<lambda>s_cell. fold (find_solid_bc_face sdim viscosity n_face_q_points fluid)
                      [0..<2 * sdim] s_cell)
         s_cells"

text \<open>
  Sample inputs: two ranks, of which one holds the pressure \<open>2\<close> and the other a shear
  gradient; a cell whose face 0 is at the boundary with boundary id 1, and a set of
  Dirichlet conditions that prescribes boundary id 1.
\<close>

definition sample_fluid :: fluid_interpolation where
  "sample_fluid =
     \<lparr>mpi_ranks = [0, 1],
      point_value = (\<lambda>r pt. if r = 0 then [0, 0, 2] else [0, 0, 0]),
      point_gradient = (\<lambda>r pt. if r = 0 then [[0, 0], [0, 0], [0, 0]]
                                else [[0, 1], [1, 0], [0, 0]])\<rparr>"

definition sample_traction_cell :: traction_cell where
  "sample_traction_cell =
     \<lparr>face_at_boundary = (\<lambda>f. f = 0), face_boundary_id = (\<lambda>f. 1),
      face_quadrature_point = (\<lambda>f q. [0, 1/2]), face_normal_vector = (\<lambda>f q. [-1, 0]),
      cell_fsi_traction = [[0, 0], [0, 0], [0, 0], [0, 0]]\<rparr>"

definition sample_solid_dirichlet_bcs :: "nat \<rightharpoonup> nat" where
  "sample_solid_dirichlet_bcs = [1 \<mapsto> 3]"

section \<open>Solid-to-fluid transfer (\<open>FSI::find_fluid_bc\<close>)\<close>

text \<open>
  deal.II's \<open>AffineConstraints\<close> as a map from the constrained dof to its line.
  \<open>add_line\<close> creates an empty line unless one exists, \<open>set_inhomogeneity\<close> changes an
  existing line, and \<open>merge\<close> with \<open>left_object_wins\<close> keeps the line of the object merged
  into where both constrain a dof.
\<close>

record constraint_line =
  entries :: "(nat \<times> real) list"
  inhomogeneity :: real

type_synonym affine_constraints = "nat \<rightharpoonup> constraint_line"

definition add_line :: "nat \<Rightarrow> affine_constraints \<Rightarrow> affine_constraints" where
  "add_line line c =
     (if line \<in> dom c then c else c(line \<mapsto> \<lparr>entries = [], inhomogeneity = 0\<rparr>))"

definition set_inhomogeneity :: "nat \<Rightarrow> real \<Rightarrow> affine_constraints \<Rightarrow> affine_constraints" where
  "set_inhomogeneity line v c =
     (case c line of None \<Rightarrow> c | Some l \<Rightarrow> c(line \<mapsto> l\<lparr>inhomogeneity := v\<rparr>))"

definition merge_left_object_wins ::
  "affine_constraints \<Rightarrow> affine_constraints \<Rightarrow> affine_constraints" where
  "merge_left_object_wins this other =
     (\<lambda>line. case this line of Some l \<Rightarrow> Some l | None \<Rightarrow> other line)"

text \<open>
  The fluid finite element: unit support points, the size of the volume quadrature,
  \<open>system_to_base_index(i).first.first\<close> and \<open>system_to_component_index(i).first\<close>.
\<close>

record fluid_fe =
  unit_points :: "point list"
  n_q_points :: nat
  base_group :: "nat \<Rightarrow> nat"
  component_index :: "nat \<Rightarrow> nat"

text \<open>
  The per-quadrature-point record of a fluid cell.
\<close>

record quadrature_point_property =
  indicator :: nat
  fsi_acceleration :: tensor1
  fsi_stress :: tensor2

text \<open>
  A fluid cell as \<open>find_fluid_bc\<close> sees it: ownership, \<open>get_dof_indices\<close>, the mapped
  support points, its cell hints, the quadrature points with the fluid pressure and
  symmetric velocity gradient there, and its cell property records.
\<close>

record fluid_cell =
  is_artificial :: bool
  is_locally_owned :: bool
  dof_indices :: "nat list"
  support_points :: "point list"
  hints :: "nat list"
  quadrature_points :: "point list"
  pressure_values :: "real list"
  sym_grad_v :: "tensor2 list"
  cell_property :: "quadrature_point_property list"

text \<open>
  What the solid side delivers.  \<open>Utils::CellLocator\<close> and \<open>Utils::GridInterpolator\<close> are
  not among the sources and enter as functions: the cell \<open>locator.search()\<close> returns for a
  point and a hint, whether the interpolator built on it has found a cell, and the solid
  velocity it interpolates.  The solid acceleration and nodal stress at a point come from
  deal.II's \<open>VectorTools::point_value\<close>.
\<close>

record solid_fields =
  locator_search :: "point \<Rightarrow> nat \<Rightarrow> nat"
  found_cell :: "point \<Rightarrow> nat \<Rightarrow> bool"
  solid_velocity_at :: "point \<Rightarrow> nat \<Rightarrow> real list"
  solid_acceleration_at :: "point \<Rightarrow> real list"
  solid_stress_at :: "nat \<Rightarrow> nat \<Rightarrow> point \<Rightarrow> real"

text \<open>
  The arguments of \<open>point_in_solid\<close> in the configuration displaced by
  \<open>move_solid_mesh(true)\<close>, and the physical parameters.
\<close>

record solid_geometry =
  space_dim :: nat
  solid_box :: "real list"
  solid_boundaries :: "segment list"
  solid_cells :: "(point \<Rightarrow> bool) list"

record fsi_physics =
  solid_rho :: real
  fluid_rho :: real
  gravity :: "real list"
  viscosity :: real

text \<open>
  The local state of the loop over the fluid cells: \<open>dof_touched\<close> (a vector indexed by
  dof; \<open>get_dof_indices\<close> delivers indices below its size) and the two inner constraint
  objects.
\<close>

record fluid_bc_state =
  dof_touched :: "nat \<Rightarrow> nat"
  inner_nonzero :: affine_constraints
  inner_zero :: affine_constraints

definition in_solid :: "solid_geometry \<Rightarrow> point \<Rightarrow> bool" where
  "in_solid G pt =
     point_in_solid (space_dim G) (solid_box G) (solid_boundaries G) (solid_cells G) pt"

text \<open>
  The flag \<open>inside\<close>: no unit coordinate of the support point is below \<open>1e-5\<close> in absolute
  value.
\<close>

definition in_cell_support_point :: "nat \<Rightarrow> point \<Rightarrow> bool" where
  "in_cell_support_point sdim unit_point \<longleftrightarrow>
     \<not> list_ex (\<lambda>d. \<bar>unit_point ! d\<bar> < 1 / 10 ^ 5) [0..<sdim]"

text \<open>
  The body of the loop over the support points of a cell.  The state is the loop state
  together with the hints of the cell; the hint read after the assignment
  \<open>*(hints[i]) = locator.search()\<close> is the value just written.  The two \<open>Assert\<close>s are
  failures of the model.
\<close>

definition support_point_step ::
  "solid_geometry \<Rightarrow> solid_fields \<Rightarrow> fluid_fe \<Rightarrow> (nat \<Rightarrow> real) \<Rightarrow> fluid_cell \<Rightarrow> nat \<Rightarrow>
   fluid_bc_state \<times> nat list \<Rightarrow> error + fluid_bc_state \<times> nat list" where
  "support_point_step G S fe present_solution f_cell i sth =
     (case sth of (st, hnts) \<Rightarrow>
        if dof_touched st (dof_indices f_cell ! i) \<noteq> 0 then Inr (st, hnts)
        else if \<not> base_group fe i < 2
          then Inl (AssertionFailed ''There should be only 2 groups of finite element!'')
        else if base_group fe i = 1 then Inr (st, hnts)
        else if in_cell_support_point (space_dim G) (unit_points fe ! i) then Inr (st, hnts)
        else if \<not> component_index fe i < space_dim G
          then Inl (AssertionFailed ''Vector component should be less than dim!'')
        else
          let st = st\<lparr>dof_touched := (dof_touched st)(dof_indices f_cell ! i := 1)\<rparr>;
              pt = support_points f_cell ! i
          in if \<not> in_solid G pt then Inr (st, hnts)
             else
               let hint = locator_search S pt (hnts ! i);
                   hnts = hnts[i := hint]
               in
               if \<not> found_cell S pt hint then Inl (CannotFindPointInSolid pt)
               else
                 let fluid_velocity = solid_velocity_at S pt hint;
                     line = dof_indices f_cell ! i
                 in Inr (st\<lparr>inner_nonzero :=
                              set_inhomogeneity line
                                (fluid_velocity ! component_index fe i - present_solution line)
                                (add_line line (inner_nonzero st)),
                            inner_zero := add_line line (inner_zero st)\<rparr>,
                         hnts))"


text \<open>
  A loop whose body may throw.
\<close>

fun fold_error :: "('a \<Rightarrow> 's \<Rightarrow> error + 's) \<Rightarrow> 'a list \<Rightarrow> 's \<Rightarrow> error + 's" where
  "fold_error f [] s = Inr s"
| "fold_error f (x # xs) s = (case f x s of Inl e \<Rightarrow> Inl e | Inr s' \<Rightarrow> fold_error f xs s')"

text \<open>
  The solid stress at a point.  The loops assign every \<open>[i][j]\<close> of a symmetric tensor, so
  the entry kept for a pair of indices is the one assigned last, with the larger index
  first.
\<close>

definition solid_sigma :: "solid_geometry \<Rightarrow> solid_fields \<Rightarrow> point \<Rightarrow> tensor2" where
  "solid_sigma G S pt =
     map (\<lambda>i. map (\<lambda>j. solid_stress_at S (max i j) (min i j) pt) [0..<space_dim G])
         [0..<space_dim G]"

definition tensor2_minus :: "tensor2 \<Rightarrow> tensor2 \<Rightarrow> tensor2" where
  "tensor2_minus a b = map2 (map2 (-)) a b"

text \<open>
  The body of the loop over the quadrature points of a locally owned cell, with the
  tests of \<open>indicator\<close> as the source has them.
\<close>

definition quadrature_point_step ::
  "solid_geometry \<Rightarrow> solid_fields \<Rightarrow> fsi_physics \<Rightarrow> fluid_cell \<Rightarrow> nat \<Rightarrow>
   quadrature_point_property list \<Rightarrow> quadrature_point_property list" where
  "quadrature_point_step G S ph f_cell q ptr =
     (let pt = quadrature_points f_cell ! q;
          prop = (ptr ! q)\<lparr>indicator := (if in_solid G pt then 1 else 0),
                            fsi_acceleration := replicate (space_dim G) 0,
                            fsi_stress := replicate (space_dim G) (replicate (space_dim G) 0)\<rparr>
      in if indicator prop = 0 then ptr[q := prop]
         else
           let solid_acc = solid_acceleration_at S pt;
               prop = fold (\<lambda>i pr.
                              if indicator pr = 0
                              then pr\<lparr>fsi_acceleration := (fsi_acceleration pr)
                                     [i := (solid_rho ph - fluid_rho ph) *
                                           (gravity ph ! i - solid_acc ! i)]\<rparr>
                              else pr)
                        [0..<space_dim G] prop;
               sigma = solid_sigma G S pt;
               prop = (if indicator prop = 0
                       then prop\<lparr>fsi_stress :=
                              tensor2_minus
                                (fluid_stress (space_dim G) (viscosity ph)
                                   (pressure_values f_cell ! q) (sym_grad_v f_cell ! q))
                                sigma\<rparr>
                       else prop)
           in ptr[q := prop])"

text \<open>
  One fluid cell, and the loop over the cells.
\<close>

definition fluid_cell_step ::
  "solid_geometry \<Rightarrow> solid_fields \<Rightarrow> fsi_physics \<Rightarrow> fluid_fe \<Rightarrow> (nat \<Rightarrow> real) \<Rightarrow>
   fluid_cell \<Rightarrow> fluid_bc_state \<Rightarrow> error + fluid_bc_state \<times> fluid_cell" where
  "fluid_cell_step G S ph fe present_solution f_cell st =
     (if is_artificial f_cell then Inr (st, f_cell)
      else
        case fold_error (support_point_step G S fe present_solution f_cell)
               [0..<length (unit_points fe)] (st, hints f_cell) of
          Inl e \<Rightarrow> Inl e
        | Inr (st, hnts) \<Rightarrow>
            if \<not> is_locally_owned f_cell then Inr (st, f_cell\<lparr>hints := hnts\<rparr>)
            else Inr (st, f_cell\<lparr>hints := hnts,
                          cell_property :=
                            fold (quadrature_point_step G S ph f_cell) [0..<n_q_points fe]
                              (cell_property f_cell)\<rparr>))"

fun fluid_cells_loop ::
  "solid_geometry \<Rightarrow> solid_fields \<Rightarrow> fsi_physics \<Rightarrow> fluid_fe \<Rightarrow> (nat \<Rightarrow> real) \<Rightarrow>
   fluid_cell list \<Rightarrow> fluid_bc_state \<Rightarrow> error + fluid_bc_state \<times> fluid_cell list" where
  "fluid_cells_loop G S ph fe present_solution [] st = Inr (st, [])"
| "fluid_cells_loop G S ph fe present_solution (f_cell # cs) st =
     (case fluid_cell_step G S ph fe present_solution f_cell st of
        Inl e \<Rightarrow> Inl e
      | Inr (st, f_cell') \<Rightarrow>
          (case fluid_cells_loop G S ph fe present_solution cs st of
             Inl e \<Rightarrow> Inl e
           | Inr (st, cs') \<Rightarrow> Inr (st, f_cell' # cs')))"

text \<open>
  The fluid solver: solution, its two constraint objects, its cells.  The result of
  \<open>find_fluid_bc\<close> keeps the two inner objects beside the updated solver.
\<close>

record fluid_solver =
  present_solution :: "nat \<Rightarrow> real"
  nonzero_constraints :: affine_constraints
  zero_constraints :: affine_constraints
  fluid_cells :: "fluid_cell list"

record fluid_bc_result =
  result_inner_nonzero :: affine_constraints
  result_inner_zero :: affine_constraints
  result_fluid :: fluid_solver

definition initial_fluid_bc_state :: fluid_bc_state where
  "initial_fluid_bc_state =
     \<lparr>dof_touched = (\<lambda>dof. 0), inner_nonzero = Map.empty, inner_zero = Map.empty\<rparr>"

definition find_fluid_bc ::
  "solid_geometry \<Rightarrow> solid_fields \<Rightarrow> fsi_physics \<Rightarrow> fluid_fe \<Rightarrow> fluid_solver \<Rightarrow>
   error + fluid_bc_result" where
  "find_fluid_bc G S ph fe fluid =
     (case fluid_cells_loop G S ph fe (present_solution fluid) (fluid_cells fluid)
             initial_fluid_bc_state of
        Inl e \<Rightarrow> Inl e
      | Inr (st, cs) \<Rightarrow>
          Inr \<lparr>result_inner_nonzero = inner_nonzero st,
               result_inner_zero = inner_zero st,
               result_fluid =
                 fluid\<lparr>nonzero_constraints :=
                         merge_left_object_wins (nonzero_constraints fluid) (inner_nonzero st),
                       zero_constraints :=
                         merge_left_object_wins (zero_constraints fluid) (inner_zero st),
                       fluid_cells := cs\<rparr>\<rparr>)"


text \<open>
  Sample inputs: the unit square as solid, at rest under gravity, and a fluid cell with
  two velocity dofs and a pressure dof at the vertex \<open>(1/2, 1/2)\<close>, a velocity dof at
  \<open>(3/2, 3/2)\<close> and one quadrature point \<open>(3/4, 3/4)\<close>.
\<close>

definition sample_geometry :: solid_geometry where
  "sample_geometry =
     \<lparr>space_dim = 2, solid_box = [0, 1, 0, 1],
      solid_boundaries = rectangle_boundaries 0 1 0 1, solid_cells = []\<rparr>"

definition sample_solid_fields :: solid_fields where
  "sample_solid_fields =
     \<lparr>locator_search = (\<lambda>pt h. 5), found_cell = (\<lambda>pt h. h = 5),
      solid_velocity_at = (\<lambda>pt h. [3, 4]), solid_acceleration_at = (\<lambda>pt. [0, 0]),
      solid_stress_at = (\<lambda>i j pt. 0)\<rparr>"

definition sample_physics :: fsi_physics where
  "sample_physics = \<lparr>solid_rho = 2, fluid_rho = 1, gravity = [0, -1], viscosity = 1\<rparr>"

definition sample_fluid_fe :: fluid_fe where
  "sample_fluid_fe =
     \<lparr>unit_points = [[0, 0], [0, 0], [0, 0], [1, 1]], n_q_points = 1,
      base_group = (\<lambda>i. if i = 2 then 1 else 0), component_index = (\<lambda>i. if i = 3 then 0 else i)\<rparr>"

definition sample_fluid_cell :: fluid_cell where
  "sample_fluid_cell =
     \<lparr>is_artificial = False, is_locally_owned = True,
      dof_indices = [0, 1, 2, 3],
      support_points = [[1/2, 1/2], [1/2, 1/2], [1/2, 1/2], [3/2, 3/2]],
      hints = [0, 0, 0, 0],
      quadrature_points = [[3/4, 3/4]],
      pressure_values = [1],
      sym_grad_v = [[[0, 0], [0, 0]]],
      cell_property = [\<lparr>indicator = 0, fsi_acceleration = [7, 7],
                         fsi_stress = [[7, 7], [7, 7]]\<rparr>]\<rparr>"

definition sample_fluid_solver :: fluid_solver where
  "sample_fluid_solver =
     \<lparr>present_solution = (\<lambda>dof. 1), nonzero_constraints = Map.empty,
      zero_constraints = Map.empty, fluid_cells = [sample_fluid_cell]\<rparr>"

text \<open>
  For the proofs: the effect of a support point on the loop state alone, the support points
  in the order the two loops visit them, the invariant that only touched dofs carry
  lines, and the claim's conditions on a support point.
\<close>

definition support_update ::
  "solid_geometry \<Rightarrow> solid_fields \<Rightarrow> fluid_fe \<Rightarrow> (nat \<Rightarrow> real) \<Rightarrow> fluid_cell \<times> nat \<Rightarrow>
   fluid_bc_state \<Rightarrow> error + fluid_bc_state" where
  "support_update G S fe present ci st =
     map_sum (\<lambda>e. e) fst (support_point_step G S fe present (fst ci) (snd ci) (st, hints (fst ci)))"

definition support_work :: "fluid_fe \<Rightarrow> fluid_cell list \<Rightarrow> (fluid_cell \<times> nat) list" where
  "support_work fe cs =
     concat (map (\<lambda>c. map (Pair c) [0..<length (unit_points fe)])
               (filter (\<lambda>c. \<not> is_artificial c) cs))"

definition lines_touched :: "fluid_bc_state \<Rightarrow> bool" where
  "lines_touched st \<longleftrightarrow>
     (\<forall>d. dof_touched st d = 0 \<longrightarrow> inner_nonzero st d = None \<and> inner_zero st d = None)"

definition dirichlet_candidate :: "solid_geometry \<Rightarrow> fluid_fe \<Rightarrow> nat \<Rightarrow> bool" where
  "dirichlet_candidate G fe i \<longleftrightarrow>
     base_group fe i \<noteq> 1 \<and> \<not> in_cell_support_point (space_dim G) (unit_points fe ! i)"

definition dirichlet_increment ::
  "solid_fields \<Rightarrow> fluid_fe \<Rightarrow> (nat \<Rightarrow> real) \<Rightarrow> fluid_cell \<Rightarrow> nat \<Rightarrow> real" where
  "dirichlet_increment S fe present c i =
     solid_velocity_at S (support_points c ! i)
       (locator_search S (support_points c ! i) (hints c ! i)) ! component_index fe i -
     present (dof_indices c ! i)"

text \<open>
  A sample cell away from the solid, and the loop state after the first support point of
  the sample cell.
\<close>

definition sample_far_cell :: fluid_cell where
  "sample_far_cell =
     sample_fluid_cell\<lparr>support_points := [[5/2, 5/2], [5/2, 5/2], [5/2, 5/2], [7/2, 7/2]],
                       quadrature_points := [[3, 3]]\<rparr>"

definition sample_state_after_first :: fluid_bc_state where
  "sample_state_after_first =
     initial_fluid_bc_state
       \<lparr>dof_touched := (dof_touched initial_fluid_bc_state)(0 := 1),
        inner_nonzero := (inner_nonzero initial_fluid_bc_state)(0 \<mapsto>
           \<lparr>entries = [], inhomogeneity = 2\<rparr>),
        inner_zero := (inner_zero initial_fluid_bc_state)(0 \<mapsto>
           \<lparr>entries = [], inhomogeneity = 0\<rparr>)\<rparr>"



text \<open>
  A sample \<open>Q1\<close> element pair in 2-D (at each of the four vertices two velocity dofs and
  a pressure dof) and the cell \<open>[-1/2, 1/2]\<^sup>2\<close>, whose vertex with unit coordinates
  \<open>(1, 1)\<close> lies inside the sample solid.
\<close>

definition sample_q1_fe :: fluid_fe where
  "sample_q1_fe =
     \<lparr>unit_points = [[0, 0], [0, 0], [0, 0], [1, 0], [1, 0], [1, 0],
                     [0, 1], [0, 1], [0, 1], [1, 1], [1, 1], [1, 1]],
      n_q_points = 1,
      base_group = (\<lambda>i. if i mod 3 = 2 then 1 else 0),
      component_index = (\<lambda>i. i mod 3)\<rparr>"

definition sample_corner_cell :: fluid_cell where
  "sample_corner_cell =
     \<lparr>is_artificial = False, is_locally_owned = True,
      dof_indices = [0, 1, 2, 3, 4, 5, 6, 7, 8, 9, 10, 11],
      support_points = [[-1/2, -1/2], [-1/2, -1/2], [-1/2, -1/2],
                        [1/2, -1/2], [1/2, -1/2], [1/2, -1/2],
                        [-1/2, 1/2], [-1/2, 1/2], [-1/2, 1/2],
                        [1/2, 1/2], [1/2, 1/2], [1/2, 1/2]],
      hints = [0, 0, 0, 0, 0, 0, 0, 0, 0, 0, 0, 0],
      quadrature_points = [[1/4, 1/4]],
      pressure_values = [1],
      sym_grad_v = [[[0, 0], [0, 0]]],
      cell_property = [\<lparr>indicator = 0, fsi_acceleration = [0, 0],
                         fsi_stress = [[0, 0], [0, 0]]\<rparr>]\<rparr>"

section \<open>Properties of the double-precision arithmetic\<close>

text \<open>
  Rounding leaves an integer multiple of the spacing untouched, moves a number by at most
  half the spacing, and commutes with negation; numbers with a significand below \<open>2^53\<close>
  and an exponent of at least \<open>-1074\<close> are doubles.
\<close>

lemma round_half_even_of_int [simp]: "round_half_even (of_int n) = n"
  by (simp add: round_half_even_def)

lemma round_half_even_error: "\<bar>of_int (round_half_even y) - y\<bar> \<le> 1/2"
  unfolding round_half_even_def Let_def
  by (auto simp: abs_if not_less; linarith)

lemma ulp_pos: "0 < ulp r"
  by (simp add: ulp_def)

lemma binade_eq:
  assumes "r \<noteq> 0" "- 1022 \<le> e" "2 powr of_int e \<le> \<bar>r\<bar>" "\<bar>r\<bar> < 2 powr (of_int e + 1)"
  shows "binade r = e"
proof -
  have "\<lfloor>log 2 \<bar>r\<bar>\<rfloor> = e"
    using assms by (subst floor_log_eq_powr_iff) auto
  with assms(2) show ?thesis by (simp add: binade_def)
qed

lemma binade_subnormal:
  assumes "r \<noteq> 0" "\<bar>r\<bar> < 2 powr (- 1022)"
  shows "binade r = - 1022"
proof -
  have "log 2 \<bar>r\<bar> < - 1022"
    using assms by (simp add: log_less_iff)
  then have "\<lfloor>log 2 \<bar>r\<bar>\<rfloor> < - 1022" by linarith
  then show ?thesis by (simp add: binade_def)
qed

lemma round_double_error:
  "\<bar>round_double r - r\<bar> \<le> \<bar>r\<bar> / 2 ^ 53 + 1 / 2 ^ 1075"
proof (cases "r = 0")
  case True
  then show ?thesis by (simp add: round_double_def)
next
  case False
  let ?u = "ulp r"
  have u: "0 < ?u" by (rule ulp_pos)
  have "round_double r - r = (of_int (round_half_even (r / ?u)) - r / ?u) * ?u"
    using False u by (simp add: round_double_def field_simps)
  then have "\<bar>round_double r - r\<bar> = \<bar>of_int (round_half_even (r / ?u)) - r / ?u\<bar> * ?u"
    using u by (simp add: abs_mult)
  also have "\<dots> \<le> 1/2 * ?u"
    using round_half_even_error [of "r / ?u"] u by (intro mult_right_mono) auto
  finally have b: "\<bar>round_double r - r\<bar> \<le> ?u / 2" by simp
  have "?u / 2 \<le> \<bar>r\<bar> / 2 ^ 53 + 1 / 2 ^ 1075"
  proof (cases "\<lfloor>log 2 \<bar>r\<bar>\<rfloor> \<ge> - 1022")
    case True
    then have e: "binade r = \<lfloor>log 2 \<bar>r\<bar>\<rfloor>" by (simp add: binade_def)
    have "2 powr of_int \<lfloor>log 2 \<bar>r\<bar>\<rfloor> \<le> 2 powr (log 2 \<bar>r\<bar>)"
      by (subst powr_le_cancel_iff) auto
    also have "\<dots> = \<bar>r\<bar>" using False by simp
    finally have le: "2 powr of_int \<lfloor>log 2 \<bar>r\<bar>\<rfloor> \<le> \<bar>r\<bar>" .
    have "?u = 2 powr of_int \<lfloor>log 2 \<bar>r\<bar>\<rfloor> / 2 ^ 52"
      by (simp add: ulp_def e powr_diff)
    with le have "?u / 2 \<le> \<bar>r\<bar> / 2 ^ 53" by (simp add: field_simps)
    then show ?thesis by simp
  next
    case False
    then have e: "binade r = - 1022" by (simp add: binade_def)
    have "?u = 2 powr (- 1074)" by (simp add: ulp_def e)
    also have "\<dots> = 1 / 2 ^ 1074" by (simp add: powr_minus_divide)
    finally have "?u / 2 = 1 / 2 ^ 1075" by simp
    then show ?thesis by simp
  qed
  with b show ?thesis by linarith
qed

lemma round_double_0 [simp]: "round_double 0 = 0"
  by (simp add: round_double_def)

lemma round_double_binade:
  assumes "r \<noteq> 0" "binade r = e"
  shows "round_double r =
    of_int (round_half_even (r / 2 powr of_int (e - 52))) * 2 powr of_int (e - 52)"
  using assms by (simp add: round_double_def ulp_def)

lemma round_double_exact:
  assumes r: "r = of_int m * 2 powr of_int k" and m: "\<bar>m\<bar> < 2 ^ 53" and k: "- 1074 \<le> k"
  shows "round_double r = r"
proof (cases "r = 0")
  case True
  then show ?thesis by simp
next
  case False
  then have m0: "m \<noteq> 0" using r by auto
  have "\<bar>r\<bar> = of_int \<bar>m\<bar> * 2 powr of_int k" by (simp add: r abs_mult)
  also have "\<dots> < 2 ^ 53 * 2 powr of_int k"
  proof -
    from m have "real_of_int \<bar>m\<bar> < real_of_int (2 ^ 53)" by (simp only: of_int_less_iff)
    then show ?thesis by simp
  qed
  also have "\<dots> = 2 powr of_int (k + 53)"
    by (simp add: powr_add powr_numeral)
  finally have lt: "\<bar>r\<bar> < 2 powr of_int (k + 53)" .
  then have "log 2 \<bar>r\<bar> < of_int (k + 53)"
    using False by (simp add: log_less_iff)
  then have "\<lfloor>log 2 \<bar>r\<bar>\<rfloor> < k + 53" by linarith
  with k have e: "binade r \<le> k + 52" by (simp add: binade_def)
  define j where "j = nat (k + 52 - binade r)"
  have j: "of_int (k - (binade r - 52)) = real j" using e by (simp add: j_def)
  have "r / ulp r = of_int m * 2 powr (of_int k - of_int (binade r - 52))"
    by (simp add: r ulp_def powr_diff)
  also have "of_int k - of_int (binade r - 52) = real j" using j by simp
  also have "of_int m * 2 powr (real j) = of_int (m * 2 ^ j)"
    by (simp add: powr_realpow)
  finally have "r / ulp r = of_int (m * 2 ^ j)" .
  then have "of_int (round_half_even (r / ulp r)) = r / ulp r"
    by (simp only: round_half_even_of_int)
  then have "round_double r = r / ulp r * ulp r"
    using False by (simp only: round_double_def if_False)
  then show ?thesis using ulp_pos [of r] by simp
qed

lemma round_double_dyadic:
  assumes "q * 2 ^ n \<in> \<int>" "\<bar>q\<bar> * 2 ^ n < 2 ^ 53" "n \<le> 1074"
  shows "round_double q = q"
proof -
  from assms(1) obtain m :: int where m: "q * 2 ^ n = of_int m" by (auto elim: Ints_cases)
  have "q = of_int m / 2 ^ n" using m by (simp add: field_simps)
  then have q: "q = of_int m * 2 powr of_int (- int n)"
    by (simp add: powr_minus_divide powr_realpow)
  have "real_of_int \<bar>m\<bar> = \<bar>q\<bar> * 2 ^ n" using m [symmetric] by (simp add: abs_mult)
  with assms(2) have "real_of_int \<bar>m\<bar> < real_of_int (2 ^ 53)" by simp
  then have "\<bar>m\<bar> < 2 ^ 53" by (simp only: of_int_less_iff)
  with q assms(3) show ?thesis by (intro round_double_exact [of q m "- int n"]) auto
qed

lemma round_double_minus: "round_double (- r) = - round_double r"
proof (cases "r = 0")
  case True then show ?thesis by simp
next
  case False
  have rhe: "round_half_even (- y) = - round_half_even y" for y
  proof (cases "y \<in> \<int>")
    case True
    then obtain n where "y = of_int n" by (auto elim: Ints_cases)
    then show ?thesis by (simp flip: of_int_minus)
  next
    case False
    then have ne: "y \<noteq> of_int \<lfloor>y\<rfloor>" by (metis Ints_of_int)
    have lt: "of_int \<lfloor>y\<rfloor> < y" using ne of_int_floor_le [of y] by linarith
    have f: "\<lfloor>- y\<rfloor> = - \<lfloor>y\<rfloor> - 1"
    proof (rule floor_unique)
      show "of_int (- \<lfloor>y\<rfloor> - 1) \<le> - y" by simp linarith
      show "- y < of_int (- \<lfloor>y\<rfloor> - 1) + 1" using lt by simp
    qed
    from lt show ?thesis
      unfolding round_half_even_def Let_def f
      by (auto simp: not_less; linarith)
  qed
  have "binade (- r) = binade r" by (simp add: binade_def)
  then have "ulp (- r) = ulp r" by (simp add: ulp_def)
  with False show ?thesis by (simp add: round_double_def rhe)
qed

lemma round_double_2_53_1: "round_double 9007199254740993 = 9007199254740992"
proof -
  have "binade 9007199254740993 = 53"
    by (rule binade_eq) (simp_all add: powr_numeral powr_add)
  then show ?thesis
    by (subst round_double_binade [where e = 53])
      (simp_all add: round_half_even_def powr_numeral)
qed

lemma round_double_tiny:
  assumes "r \<noteq> 0" "\<bar>r\<bar> < 1 / 2 ^ 1075"
  shows "round_double r = 0"
proof -
  have "\<bar>r\<bar> < 2 powr (- 1022)"
  proof -
    have "(1::real) / 2 ^ 1075 \<le> 1 / 2 ^ 1022" by (simp add: field_simps)
    also have "\<dots> = 2 powr (- 1022)" by (simp add: powr_minus_divide)
    finally show ?thesis using assms(2) by simp
  qed
  with assms(1) have e: "binade r = - 1022" by (rule binade_subnormal)
  have u: "ulp r = 1 / 2 ^ 1074" by (simp add: ulp_def e powr_minus_divide)
  define y where "y = r / ulp r"
  have y: "\<bar>y\<bar> < 1/2" using assms(2) by (simp add: y_def u abs_mult field_simps)
  have "round_half_even y = 0"
  proof (cases "y < 0")
    case True
    with y have "\<lfloor>y\<rfloor> = - 1" by (simp add: floor_eq_iff)
    with True y show ?thesis
      by (simp add: round_half_even_def)
  next
    case False
    with y have "\<lfloor>y\<rfloor> = 0" by (simp add: floor_eq_iff)
    with False y show ?thesis
      by (simp add: round_half_even_def)
  qed
  then have "round_half_even (r / ulp r) = 0" by (simp only: y_def)
  then show ?thesis by (simp add: round_double_def)
qed

lemma round_double_small:
  assumes "q * 1024 \<in> \<int>" "\<bar>q\<bar> < 8796093022208"
  shows "round_double q = q"
  using assms by (intro round_double_dyadic [where n = 10]) simp_all

section \<open>Properties of the Newton iteration\<close>

lemma newton_loop_completed:
  "newton_loop g P errs s = Inr s' \<Longrightarrow> newton_iteration s \<le> solid_max_iterations P \<Longrightarrow>
   newton_iteration s' \<le> solid_max_iterations P \<and> \<not> g P s'"
proof (induction g P errs s rule: newton_loop.induct)
  case (1 g P errs s)
  show ?case
  proof (cases "g P s")
    case False
    with "1.prems" show ?thesis by simp
  next
    case True
    with "1.prems" have lt: "newton_iteration s < solid_max_iterations P"
      by (simp split: if_splits)
    with True "1.prems" have "newton_loop g P errs (newton_body errs s) = Inr s'" by simp
    moreover from lt have "newton_iteration (newton_body errs s) \<le> solid_max_iterations P"
      by (simp add: newton_body_def Let_def)
    ultimately show ?thesis using "1.IH" True lt by blast
  qed
qed

lemma newton_loop_aborts:
  "\<forall>k \<le> solid_max_iterations P - newton_iteration s. g P ((newton_body errs ^^ k) s) \<Longrightarrow>
   newton_loop g P errs s = Inl TooManyNewtonIterations"
proof (induction g P errs s rule: newton_loop.induct)
  case (1 g P errs s)
  from "1.prems" have g0: "g P s" by (metis funpow_0 le0)
  show ?case
  proof (cases "newton_iteration s < solid_max_iterations P")
    case False
    with g0 show ?thesis by simp
  next
    case True
    have "\<forall>k \<le> solid_max_iterations P - newton_iteration (newton_body errs s).
            g P ((newton_body errs ^^ k) (newton_body errs s))"
    proof (intro allI impI)
      fix k assume "k \<le> solid_max_iterations P - newton_iteration (newton_body errs s)"
      with True have "Suc k \<le> solid_max_iterations P - newton_iteration s"
        by (simp add: newton_body_def Let_def)
      with "1.prems" have "g P ((newton_body errs ^^ Suc k) s)" by blast
      then show "g P ((newton_body errs ^^ k) (newton_body errs s))"
        by (simp add: funpow_swap1)
    qed
    with "1.IH" g0 True
    have "newton_loop g P errs (newton_body errs s) = Inl TooManyNewtonIterations"
      by blast
    with g0 True show ?thesis by simp
  qed
qed

text \<open>
  C9, as the claim states its consequence: "every completed timestep used strictly fewer
  than \<open>solid_max_iterations\<close> Newton iterations".  With \<open>solid_max_iterations = 1\<close> and a
  first solve whose norms are already below \<open>1e-12\<close>, the assertion of the single pass
  holds (\<open>0 < 1\<close>), the pass runs, the guard then fails and the timestep completes with
  the counter at \<open>1\<close>, which is not strictly below the maximum.
\<close>

theorem run_one_step_completes_at_max_iterations:
  "HyperElasticity_run_one_step sample_newton_parameters sample_small_errors =
     Inr \<lparr>newton_iteration = 1,
          error_residual = 1 / 10 ^ 13, initial_error_residual = 1 / 10 ^ 13,
          normalized_error_residual = 1,
          error_update = 1 / 10 ^ 13, initial_error_update = 1 / 10 ^ 13,
          normalized_error_update = 1\<rparr> \<and>
   \<not> (1 < solid_max_iterations sample_newton_parameters)"
  by (simp add: HyperElasticity_run_one_step_def sample_newton_parameters_def
      sample_small_errors_def newton_reset_def unconverged_def newton_body_def Let_def)

text \<open>
  C9, amended: in both hyperelastic solvers, if the convergence criterion is unmet at the
  start of every pass up to and including the one at which the counter equals
  \<open>solid_max_iterations\<close>, \<open>run_one_step\<close> aborts with "Too many Newton iterations!"; and
  every completed timestep has met the criterion after at most \<open>solid_max_iterations\<close>
  passes (the bound is not strict).
\<close>

theorem run_one_step_newton_iterations_bound:
  "((\<forall>k \<le> solid_max_iterations P. unconverged P ((newton_body errs ^^ k) newton_reset)) \<longrightarrow>
      HyperElasticity_run_one_step P errs = Inl TooManyNewtonIterations) \<and>
   (HyperElasticity_run_one_step P errs = Inr s \<longrightarrow>
      newton_iteration s \<le> solid_max_iterations P \<and> \<not> unconverged P s) \<and>
   ((\<forall>k \<le> solid_max_iterations P.
        shared_unconverged P ((newton_body errs ^^ k) newton_reset)) \<longrightarrow>
      SharedHyperElasticity_run_one_step P errs = Inl TooManyNewtonIterations) \<and>
   (SharedHyperElasticity_run_one_step P errs = Inr s \<longrightarrow>
      newton_iteration s \<le> solid_max_iterations P \<and> \<not> shared_unconverged P s)"
proof -
  have it0: "newton_iteration newton_reset = 0"
    by (simp add: newton_reset_def)
  have a: "newton_loop g P errs newton_reset = Inl TooManyNewtonIterations"
    if "\<forall>k \<le> solid_max_iterations P. g P ((newton_body errs ^^ k) newton_reset)" for g
    by (rule newton_loop_aborts) (simp add: it0 that)
  have b: "newton_iteration s \<le> solid_max_iterations P \<and> \<not> g P s"
    if "newton_loop g P errs newton_reset = Inr s" for g
    by (rule newton_loop_completed [OF that]) (simp add: it0)
  show ?thesis
    unfolding HyperElasticity_run_one_step_def SharedHyperElasticity_run_one_step_def
    using a b by blast
qed

theorem run_one_step_newton_iterations_bound_witness:
  "unconverged sample_newton_parameters newton_reset \<and>
   unconverged sample_newton_parameters (newton_body sample_stalled_errors newton_reset) \<and>
   HyperElasticity_run_one_step sample_newton_parameters sample_stalled_errors =
     Inl TooManyNewtonIterations \<and>
   shared_unconverged sample_newton_parameters newton_reset \<and>
   shared_unconverged sample_newton_parameters
     (newton_body sample_stalled_errors newton_reset) \<and>
   SharedHyperElasticity_run_one_step sample_newton_parameters sample_stalled_errors =
     Inl TooManyNewtonIterations \<and>
   HyperElasticity_run_one_step sample_newton_parameters sample_small_errors =
     Inr (newton_body sample_small_errors newton_reset) \<and>
   SharedHyperElasticity_run_one_step sample_newton_parameters sample_small_errors =
     Inr (newton_body sample_small_errors newton_reset) \<and>
   newton_iteration (newton_body sample_small_errors newton_reset)
     \<le> solid_max_iterations sample_newton_parameters \<and>
   \<not> unconverged sample_newton_parameters (newton_body sample_small_errors newton_reset) \<and>
   \<not> shared_unconverged sample_newton_parameters (newton_body sample_small_errors newton_reset)"
proof -
  have le1: "k \<le> solid_max_iterations sample_newton_parameters \<longleftrightarrow> k = 0 \<or> k = 1" for k
    by (auto simp: sample_newton_parameters_def)
  have h1: "\<forall>k \<le> solid_max_iterations sample_newton_parameters.
      unconverged sample_newton_parameters ((newton_body sample_stalled_errors ^^ k) newton_reset)"
    unfolding le1
    by (auto simp: unconverged_def newton_body_def newton_reset_def Let_def
        sample_stalled_errors_def sample_newton_parameters_def)
  have h2: "\<forall>k \<le> solid_max_iterations sample_newton_parameters.
      shared_unconverged sample_newton_parameters
        ((newton_body sample_stalled_errors ^^ k) newton_reset)"
    unfolding le1
    by (auto simp: shared_unconverged_def newton_body_def newton_reset_def Let_def
        sample_stalled_errors_def sample_newton_parameters_def)
  have r1: "HyperElasticity_run_one_step sample_newton_parameters sample_small_errors =
     Inr (newton_body sample_small_errors newton_reset)"
    by (simp add: HyperElasticity_run_one_step_def sample_newton_parameters_def
      sample_small_errors_def newton_reset_def unconverged_def newton_body_def Let_def)
  have r2: "SharedHyperElasticity_run_one_step sample_newton_parameters sample_small_errors =
     Inr (newton_body sample_small_errors newton_reset)"
    by (simp add: SharedHyperElasticity_run_one_step_def sample_newton_parameters_def
      sample_small_errors_def newton_reset_def shared_unconverged_def newton_body_def Let_def)
  have k0: "(newton_body sample_stalled_errors ^^ 0) newton_reset = newton_reset"
    and k1: "(newton_body sample_stalled_errors ^^ 1) newton_reset =
             newton_body sample_stalled_errors newton_reset"
    by simp_all
  have m: "(0::nat) \<le> solid_max_iterations sample_newton_parameters"
          "(1::nat) \<le> solid_max_iterations sample_newton_parameters"
    by (simp_all add: sample_newton_parameters_def)
  from h1 m k0 k1 have u: "unconverged sample_newton_parameters newton_reset"
    "unconverged sample_newton_parameters (newton_body sample_stalled_errors newton_reset)"
    by metis+
  from h2 m k0 k1 have su: "shared_unconverged sample_newton_parameters newton_reset"
    "shared_unconverged sample_newton_parameters
       (newton_body sample_stalled_errors newton_reset)"
    by metis+
  from h1 h2 r1 r2 u su
    run_one_step_newton_iterations_bound [of sample_newton_parameters sample_stalled_errors]
    run_one_step_newton_iterations_bound [of sample_newton_parameters sample_small_errors
      "newton_body sample_small_errors newton_reset"]
  show ?thesis by blast
qed

section \<open>Properties of the mesh motion\<close>

lemma move_vertex_ref:
  "move_vertex sdim fwd disp cell v st = move_ref sdim fwd disp (vertex_index cell ! v, vertex_dof_index cell ! v) st"
  by (cases st) (simp add: move_vertex_def move_ref_def Let_def)

lemma fold_inner_refs:
  "fold (move_vertex sdim fwd disp cell) vs st =
   fold (move_ref sdim fwd disp) (map (\<lambda>v. (vertex_index cell ! v, vertex_dof_index cell ! v)) vs) st"
  by (induction vs arbitrary: st) (simp_all add: move_vertex_ref)

lemma fold_cells_refs:
  "fold (\<lambda>cell. fold (move_vertex sdim fwd disp cell) [0..<vertices_per_cell sdim]) cs st =
   fold (move_ref sdim fwd disp) (vertex_refs sdim cs) st"
  by (induction cs arbitrary: st) (simp_all add: vertex_refs_def fold_inner_refs)

lemma fold_move_ref:
  assumes "\<forall>r \<in> set refs. fst r < length touched" "length verts = length touched"
  shows "length (fst (fold (move_ref sdim fwd disp) refs (touched, verts))) = length touched \<and>
         length (snd (fold (move_ref sdim fwd disp) refs (touched, verts))) = length touched \<and>
         (\<forall>i < length touched.
            snd (fold (move_ref sdim fwd disp) refs (touched, verts)) ! i =
              (if touched ! i then verts ! i
               else case map_of refs i of None \<Rightarrow> verts ! i
                    | Some dofs \<Rightarrow> shifted sdim fwd disp (verts ! i) dofs))"
  using assms
proof (induction refs arbitrary: touched verts)
  case Nil
  then show ?case by simp
next
  case (Cons r refs)
  obtain vi dofs where r: "r = (vi, dofs)" by (cases r)
  from Cons.prems r have vi: "vi < length touched" by simp
  show ?case
  proof (cases "touched ! vi")
    case True
    then have step: "move_ref sdim fwd disp (vi, dofs) (touched, verts) = (touched, verts)"
      by (simp add: move_ref_def)
    from Cons.prems have "\<forall>r \<in> set refs. fst r < length touched" by simp
    from Cons.IH [OF this Cons.prems(2)] True show ?thesis
      by (auto simp: r step)
  next
    case False
    let ?t = "touched[vi := True]"
    let ?v = "verts[vi := shifted sdim fwd disp (verts ! vi) dofs]"
    from False have step: "move_ref sdim fwd disp (vi, dofs) (touched, verts) = (?t, ?v)"
      by (simp add: move_ref_def shifted_def)
    from Cons.prems have a: "\<forall>r \<in> set refs. fst r < length ?t" by simp
    from Cons.prems have b: "length ?v = length ?t" by simp
    from Cons.IH [OF a b] vi False Cons.prems(2) show ?thesis
      by (auto simp: r step nth_list_update split: option.splits)
  qed
qed


lemma vertex_refs_in_range:
  assumes "wf_solid_mesh sdim m"
  shows "\<forall>r \<in> set (vertex_refs sdim (active_cells m)). fst r < length (vertices m)"
proof
  fix r assume "r \<in> set (vertex_refs sdim (active_cells m))"
  then obtain cell v where cell: "cell \<in> set (active_cells m)"
    and v: "v < vertices_per_cell sdim" and r: "r = (vertex_index cell ! v, vertex_dof_index cell ! v)"
    by (auto simp: vertex_refs_def)
  from assms cell v have "vertex_index cell ! v \<in> set (vertex_index cell)"
    by (simp add: wf_solid_mesh_def)
  with assms cell show "fst r < length (vertices m)"
    by (simp add: wf_solid_mesh_def r)
qed

lemma vertex_refs_dofs_length:
  assumes "wf_solid_mesh sdim m" "map_of (vertex_refs sdim (active_cells m)) i = Some dofs"
  shows "length dofs = sdim"
proof -
  from assms(2) have "(i, dofs) \<in> set (vertex_refs sdim (active_cells m))"
    by (rule map_of_SomeD)
  then obtain cell v where cell: "cell \<in> set (active_cells m)"
    and v: "v < vertices_per_cell sdim" and r: "dofs = vertex_dof_index cell ! v"
    by (auto simp: vertex_refs_def)
  from assms(1) cell v have "vertex_dof_index cell ! v \<in> set (vertex_dof_index cell)"
    by (simp add: wf_solid_mesh_def)
  with assms(1) cell show ?thesis
    by (simp add: wf_solid_mesh_def r)
qed

lemma move_solid_mesh_vertices_refs:
  assumes "\<forall>r \<in> set (vertex_refs sdim (active_cells m)). fst r < length (vertices m)"
  shows "length (vertices (move_solid_mesh sdim fwd m)) = length (vertices m) \<and>
         (\<forall>i < length (vertices m).
            vertices (move_solid_mesh sdim fwd m) ! i =
              (case map_of (vertex_refs sdim (active_cells m)) i of
                 None \<Rightarrow> vertices m ! i
               | Some dofs \<Rightarrow> shifted sdim fwd (current_displacement m) (vertices m ! i) dofs))"
proof -
  let ?t = "replicate (length (vertices m)) False"
  have a: "\<forall>r \<in> set (vertex_refs sdim (active_cells m)). fst r < length ?t"
    using assms by simp
  have b: "length (vertices m) = length ?t" by simp
  from fold_move_ref [OF a b, of sdim fwd "current_displacement m"]
  show ?thesis
    by (simp add: move_solid_mesh_def Let_def fold_cells_refs)
qed

lemmas move_solid_mesh_vertices = move_solid_mesh_vertices_refs [OF vertex_refs_in_range]

lemma move_solid_mesh_other_fields:
  "active_cells (move_solid_mesh sdim fwd m) = active_cells m"
  "current_displacement (move_solid_mesh sdim fwd m) = current_displacement m"
  "solid_mesh.more (move_solid_mesh sdim fwd m) = solid_mesh.more m"
  by (simp_all add: move_solid_mesh_def Let_def)

lemma move_solid_mesh_wf_refs:
  assumes "wf_solid_mesh sdim m"
  shows "\<forall>r \<in> set (vertex_refs sdim (active_cells (move_solid_mesh sdim fwd m))).
           fst r < length (vertices (move_solid_mesh sdim fwd m))"
  using vertex_refs_in_range [OF assms] move_solid_mesh_vertices [OF assms, of fwd]
  by (simp add: move_solid_mesh_other_fields)

lemma shifted_forward_backward:
  "length p = sdim \<Longrightarrow> length dofs = sdim \<Longrightarrow>
   shifted sdim False disp (shifted sdim True disp p dofs) dofs =
     map2 moved_and_restored p (vertex_displacement sdim disp dofs)"
  by (rule nth_equalityI)
    (simp_all add: shifted_def vertex_displacement_def moved_and_restored_def)

lemma move_solid_mesh_round_trip:
  assumes "wf_solid_mesh sdim m"
  shows "length (vertices (move_solid_mesh sdim False (move_solid_mesh sdim True m))) =
           length (vertices m) \<and>
         (\<forall>i < length (vertices m).
            vertices (move_solid_mesh sdim False (move_solid_mesh sdim True m)) ! i =
              (case map_of (vertex_refs sdim (active_cells m)) i of
                 None \<Rightarrow> vertices m ! i
               | Some dofs \<Rightarrow>
                   map2 moved_and_restored (vertices m ! i)
                     (vertex_displacement sdim (current_displacement m) dofs)))"
proof -
  let ?m1 = "move_solid_mesh sdim True m"
  let ?refs = "vertex_refs sdim (active_cells m)"
  note fw = move_solid_mesh_vertices [OF assms, of True]
  have "\<forall>r \<in> set (vertex_refs sdim (active_cells ?m1)). fst r < length (vertices ?m1)"
    using assms by (rule move_solid_mesh_wf_refs)
  note raw = move_solid_mesh_vertices_refs [OF this, of False]
  have len1: "length (vertices ?m1) = length (vertices m)"
    using fw by simp
  have bwd1: "length (vertices (move_solid_mesh sdim False ?m1)) = length (vertices m) \<and>
     (\<forall>i < length (vertices m).
        vertices (move_solid_mesh sdim False ?m1) ! i =
          (case map_of ?refs i of
             None \<Rightarrow> vertices ?m1 ! i
           | Some dofs \<Rightarrow> shifted sdim False (current_displacement m) (vertices ?m1 ! i) dofs))"
    using raw unfolding move_solid_mesh_other_fields len1 .
  have "vertices (move_solid_mesh sdim False ?m1) ! i =
          (case map_of ?refs i of
             None \<Rightarrow> vertices m ! i
           | Some dofs \<Rightarrow>
               map2 moved_and_restored (vertices m ! i)
                 (vertex_displacement sdim (current_displacement m) dofs))"
    if i: "i < length (vertices m)" for i
  proof (cases "map_of ?refs i")
    case None
    with bwd1 fw i show ?thesis by simp
  next
    case (Some dofs)
    with assms have "length dofs = sdim" by (rule vertex_refs_dofs_length)
    moreover from i have "length (vertices m ! i) = sdim"
      using assms by (simp add: wf_solid_mesh_def)
    ultimately show ?thesis
      using Some bwd1 fw i by (simp add: shifted_forward_backward)
  qed
  with bwd1 show ?thesis by simp
qed

lemma moved_and_restored_tolerance:
  "\<bar>moved_and_restored x d - x\<bar> \<le> restore_tolerance x d"
proof -
  let ?s = "fl_add x d"
  have a: "\<bar>?s - (x + d)\<bar> \<le> \<bar>x + d\<bar> / 2 ^ 53 + 1 / 2 ^ 1075"
    unfolding fl_add_def by (rule round_double_error)
  have b: "\<bar>moved_and_restored x d - (?s - d)\<bar> \<le> \<bar>?s - d\<bar> / 2 ^ 53 + 1 / 2 ^ 1075"
    unfolding moved_and_restored_def fl_sub_def by (rule round_double_error)
  have "\<bar>moved_and_restored x d - x\<bar> \<le>
          \<bar>moved_and_restored x d - (?s - d)\<bar> + \<bar>?s - (x + d)\<bar>"
    by linarith
  also have "\<dots> \<le> (\<bar>?s - d\<bar> / 2 ^ 53 + 1 / 2 ^ 1075) + (\<bar>x + d\<bar> / 2 ^ 53 + 1 / 2 ^ 1075)"
    using a b by (rule add_mono [rotated])
  also have "\<dots> = restore_tolerance x d"
    by (simp add: restore_tolerance_def add_divide_distrib)
  finally show ?thesis .
qed

lemma restore_tolerance_nonneg: "0 \<le> restore_tolerance x d"
  by (simp add: restore_tolerance_def)

lemma moved_and_restored_exact:
  "fl_add x d = x + d \<Longrightarrow> round_double x = x \<Longrightarrow> moved_and_restored x d = x"
  by (simp add: moved_and_restored_def fl_sub_def)

text \<open>
  C6, amended: on a well-formed solid mesh with coordinates and displacements in range,
  each call of \<open>move_solid_mesh\<close> moves every vertex that lies on an active cell exactly
  once, by the displacement read at the dofs of that vertex when it is first reached (added
  on the forward call, subtracted on the backward call, in double precision), however many
  cells share the vertex; a vertex on no active cell is not moved.  The forward call
  followed by the backward call changes nothing but the vertices, and brings each
  coordinate \<open>x\<close> displaced by \<open>d\<close> back as \<open>(x + d) - d\<close> with both operations rounded:
  within the two rounding errors of \<open>x\<close>, and to \<open>x\<close> itself when \<open>x\<close> is a double and the sum
  \<open>x + d\<close> is computed without rounding.
\<close>

theorem move_solid_mesh_forward_backward:
  assumes "wf_solid_mesh sdim m" and "mesh_in_range m"
  shows "active_cells (move_solid_mesh sdim False (move_solid_mesh sdim True m)) =
           active_cells m \<and>
         current_displacement (move_solid_mesh sdim False (move_solid_mesh sdim True m)) =
           current_displacement m \<and>
         length (vertices (move_solid_mesh sdim False (move_solid_mesh sdim True m))) =
           length (vertices m) \<and>
         (\<forall>i < length (vertices m).
            case map_of (vertex_refs sdim (active_cells m)) i of
              None \<Rightarrow>
                vertices (move_solid_mesh sdim True m) ! i = vertices m ! i \<and>
                vertices (move_solid_mesh sdim False m) ! i = vertices m ! i \<and>
                vertices (move_solid_mesh sdim False (move_solid_mesh sdim True m)) ! i =
                  vertices m ! i
            | Some dofs \<Rightarrow>
                vertices (move_solid_mesh sdim True m) ! i =
                  map2 fl_add (vertices m ! i)
                    (vertex_displacement sdim (current_displacement m) dofs) \<and>
                vertices (move_solid_mesh sdim False m) ! i =
                  map2 fl_sub (vertices m ! i)
                    (vertex_displacement sdim (current_displacement m) dofs) \<and>
                vertices (move_solid_mesh sdim False (move_solid_mesh sdim True m)) ! i =
                  map2 moved_and_restored (vertices m ! i)
                    (vertex_displacement sdim (current_displacement m) dofs) \<and>
                (\<forall>k < sdim.
                   \<bar>vertices (move_solid_mesh sdim False (move_solid_mesh sdim True m)) ! i ! k -
                     vertices m ! i ! k\<bar>
                     \<le> restore_tolerance (vertices m ! i ! k)
                          (current_displacement m ! (dofs ! k)) \<and>
                   (fl_add (vertices m ! i ! k) (current_displacement m ! (dofs ! k)) =
                      vertices m ! i ! k + current_displacement m ! (dofs ! k) \<and>
                    round_double (vertices m ! i ! k) = vertices m ! i ! k \<longrightarrow>
                    vertices (move_solid_mesh sdim False (move_solid_mesh sdim True m)) ! i ! k =
                      vertices m ! i ! k)))"
proof -
  let ?rt = "move_solid_mesh sdim False (move_solid_mesh sdim True m)"
  let ?refs = "vertex_refs sdim (active_cells m)"
  let ?disp = "current_displacement m"
  note fw = move_solid_mesh_vertices [OF assms(1), of True]
  note bw = move_solid_mesh_vertices [OF assms(1), of False]
  note rt = move_solid_mesh_round_trip [OF assms(1)]
  have fields: "active_cells ?rt = active_cells m" "current_displacement ?rt = ?disp"
    by (simp_all add: move_solid_mesh_other_fields)
  have "case map_of ?refs i of
          None \<Rightarrow>
            vertices (move_solid_mesh sdim True m) ! i = vertices m ! i \<and>
            vertices (move_solid_mesh sdim False m) ! i = vertices m ! i \<and>
            vertices ?rt ! i = vertices m ! i
        | Some dofs \<Rightarrow>
            vertices (move_solid_mesh sdim True m) ! i =
              map2 fl_add (vertices m ! i) (vertex_displacement sdim ?disp dofs) \<and>
            vertices (move_solid_mesh sdim False m) ! i =
              map2 fl_sub (vertices m ! i) (vertex_displacement sdim ?disp dofs) \<and>
            vertices ?rt ! i =
              map2 moved_and_restored (vertices m ! i) (vertex_displacement sdim ?disp dofs) \<and>
            (\<forall>k < sdim.
               \<bar>vertices ?rt ! i ! k - vertices m ! i ! k\<bar>
                 \<le> restore_tolerance (vertices m ! i ! k) (?disp ! (dofs ! k)) \<and>
               (fl_add (vertices m ! i ! k) (?disp ! (dofs ! k)) =
                  vertices m ! i ! k + ?disp ! (dofs ! k) \<and>
                round_double (vertices m ! i ! k) = vertices m ! i ! k \<longrightarrow>
                vertices ?rt ! i ! k = vertices m ! i ! k))"
    if i: "i < length (vertices m)" for i
  proof (cases "map_of ?refs i")
    case None
    with fw bw rt i show ?thesis by simp
  next
    case (Some dofs)
    with assms(1) have ld: "length dofs = sdim" by (rule vertex_refs_dofs_length)
    from i have lv: "length (vertices m ! i) = sdim"
      using assms(1) by (simp add: wf_solid_mesh_def)
    have r: "vertices ?rt ! i =
        map2 moved_and_restored (vertices m ! i) (vertex_displacement sdim ?disp dofs)"
      using rt i Some by simp
    have c: "vertices ?rt ! i ! k = moved_and_restored (vertices m ! i ! k) (?disp ! (dofs ! k))"
      if "k < sdim" for k
      using that lv by (simp add: r vertex_displacement_def)
    from fw bw i Some r c show ?thesis
      by (simp add: shifted_def moved_and_restored_tolerance moved_and_restored_exact)
  qed
  with fields rt show ?thesis by simp
qed


lemma upt4: "[0..<4] = [0, 1, 2, 3]" by (simp add: upt_rec)
lemma upt2: "[0..<2] = [0, 1]" by (simp add: upt_rec)

text \<open>
  C6 as stated fails in double precision: the vertex at \<open>(1, 0)\<close> displaced by \<open>2^53\<close> is
  moved to \<open>(2^53, 0)\<close>, the sum \<open>1 + 2^53\<close> being rounded to \<open>2^53\<close>, and the backward call
  leaves it at \<open>(0, 0)\<close>.
\<close>

theorem move_solid_mesh_restoration_counterexample:
  "wf_solid_mesh 2 sample_far_displaced_mesh \<and>
   mesh_in_range sample_far_displaced_mesh \<and>
   vertices sample_far_displaced_mesh ! 1 = [1, 0] \<and>
   vertices (move_solid_mesh 2 True sample_far_displaced_mesh) ! 1 = [9007199254740992, 0] \<and>
   vertices (move_solid_mesh 2 False (move_solid_mesh 2 True sample_far_displaced_mesh)) ! 1 =
     [0, 0]"
proof -
  have wf: "wf_solid_mesh 2 sample_far_displaced_mesh"
    by (simp add: wf_solid_mesh_def sample_far_displaced_mesh_def vertices_per_cell_def)
  have rg: "mesh_in_range sample_far_displaced_mesh"
    by (simp add: mesh_in_range_def sample_far_displaced_mesh_def)
  have refs: "map_of (vertex_refs 2 (active_cells sample_far_displaced_mesh)) 1 = Some [2, 3]"
    by (simp add: vertex_refs_def sample_far_displaced_mesh_def vertices_per_cell_def upt4)
  have vd: "vertex_displacement 2 (current_displacement sample_far_displaced_mesh) [2, 3] =
      [9007199254740992, 0]"
    by (simp add: vertex_displacement_def sample_far_displaced_mesh_def upt2)
  have v1: "vertices sample_far_displaced_mesh ! 1 = [1, 0]"
    "1 < length (vertices sample_far_displaced_mesh)"
    by (simp_all add: sample_far_displaced_mesh_def)
  have f: "vertices (move_solid_mesh 2 True sample_far_displaced_mesh) ! 1 =
      [9007199254740992, 0]"
    using move_solid_mesh_vertices [OF wf, of True] refs vd v1
    by (simp add: shifted_def fl_add_def round_double_2_53_1)
  have b: "vertices (move_solid_mesh 2 False (move_solid_mesh 2 True sample_far_displaced_mesh)) ! 1 =
      [0, 0]"
    using move_solid_mesh_round_trip [OF wf] refs vd v1
    by (simp add: moved_and_restored_def fl_add_def fl_sub_def round_double_2_53_1)
  from wf rg v1(1) f b show ?thesis by simp
qed

text \<open>
  The theorem at the sample mesh, where vertex 1 is shared by both cells and moves by
  \<open>(1/4, 1/8)\<close> once; all its sums are exact, and it comes back to \<open>(1, 0)\<close>.
\<close>

theorem move_solid_mesh_forward_backward_witness:
  "wf_solid_mesh 2 sample_solid_mesh \<and>
   mesh_in_range sample_solid_mesh \<and>
   map_of (vertex_refs 2 (active_cells sample_solid_mesh)) 1 = Some [2, 3] \<and>
   vertices (move_solid_mesh 2 True sample_solid_mesh) ! 1 = [5/4, 1/8] \<and>
   vertices (move_solid_mesh 2 False sample_solid_mesh) ! 1 = [3/4, - 1/8] \<and>
   vertices (move_solid_mesh 2 False (move_solid_mesh 2 True sample_solid_mesh)) ! 1 = [1, 0] \<and>
   \<bar>vertices (move_solid_mesh 2 False (move_solid_mesh 2 True sample_solid_mesh)) ! 1 ! 0 - 1\<bar>
     \<le> restore_tolerance 1 (1/4)"
proof -
  have wf: "wf_solid_mesh 2 sample_solid_mesh"
    by (simp add: wf_solid_mesh_def sample_solid_mesh_def vertices_per_cell_def)
  have rg: "mesh_in_range sample_solid_mesh"
    by (simp add: mesh_in_range_def sample_solid_mesh_def)
  have refs: "map_of (vertex_refs 2 (active_cells sample_solid_mesh)) 1 = Some [2, 3]"
    by (simp add: vertex_refs_def sample_solid_mesh_def vertices_per_cell_def upt4)
  have vd: "vertex_displacement 2 (current_displacement sample_solid_mesh) [2, 3] = [1/4, 1/8]"
    by (simp add: vertex_displacement_def sample_solid_mesh_def upt2)
  have v1: "vertices sample_solid_mesh ! 1 = [1, 0]" "1 < length (vertices sample_solid_mesh)"
    by (simp_all add: sample_solid_mesh_def)
  have "current_displacement sample_solid_mesh ! 2 = 1/4"
    by (simp add: sample_solid_mesh_def)
  then have d: "restore_tolerance 1 (current_displacement sample_solid_mesh ! 2) =
      restore_tolerance 1 (1/4)"
    by (simp only:)
  from move_solid_mesh_forward_backward [OF wf rg] v1(2)
  have "case map_of (vertex_refs 2 (active_cells sample_solid_mesh)) 1 of
          None \<Rightarrow> True
        | Some dofs \<Rightarrow>
            vertices (move_solid_mesh 2 True sample_solid_mesh) ! 1 =
              map2 fl_add (vertices sample_solid_mesh ! 1)
                (vertex_displacement 2 (current_displacement sample_solid_mesh) dofs) \<and>
            vertices (move_solid_mesh 2 False sample_solid_mesh) ! 1 =
              map2 fl_sub (vertices sample_solid_mesh ! 1)
                (vertex_displacement 2 (current_displacement sample_solid_mesh) dofs) \<and>
            vertices (move_solid_mesh 2 False (move_solid_mesh 2 True sample_solid_mesh)) ! 1 =
              map2 moved_and_restored (vertices sample_solid_mesh ! 1)
                (vertex_displacement 2 (current_displacement sample_solid_mesh) dofs) \<and>
            \<bar>vertices (move_solid_mesh 2 False (move_solid_mesh 2 True sample_solid_mesh)) ! 1 ! 0 -
              vertices sample_solid_mesh ! 1 ! 0\<bar>
              \<le> restore_tolerance (vertices sample_solid_mesh ! 1 ! 0)
                   (current_displacement sample_solid_mesh ! (dofs ! 0))"
    by (auto split: option.splits)
  with refs vd v1 d wf rg show ?thesis
    by (simp add: fl_add_def fl_sub_def moved_and_restored_def round_double_small
        restore_tolerance_nonneg)
qed

section \<open>Properties of the point-in-solid test\<close>






lemma rectangle_interior:
  assumes "x0 < px" "px < x1" "y0 < py" "py < y1"
  shows "point_in_solid 2 [x0, x1, y0, y1] (rectangle_boundaries x0 x1 y0 y1) df [px, py]"
proof -
  have box: "\<not> outside_solid_box 2 [x0, x1, y0, y1] [px, py]"
    using assms by (simp add: outside_solid_box_def upt_rec numeral_2_eq_2 numeral_3_eq_3)
  have s1: "(y0 - py) * (y1 - py) < 0"
    using assms by (simp add: mult_less_0_iff)
  have s2: "\<not> (y0 - py) * (y0 - py) < 0" "(y0 - py) * (y0 - py) \<noteq> 0"
    using assms by (simp_all add: mult_less_0_iff)
  have s3: "\<not> (y1 - py) * (y1 - py) < 0" "(y1 - py) * (y1 - py) \<noteq> 0"
    using assms by (simp_all add: mult_less_0_iff)
  have l: "r2_0_plus_p2_0 [px, py] ([x0, y0], [x0, y1]) = x0"
    by (simp add: r2_0_plus_p2_0_def Let_def)
  have r: "r2_0_plus_p2_0 [px, py] ([x1, y0], [x1, y1]) = x1"
    by (simp add: r2_0_plus_p2_0_def Let_def)
  have "crossing_loop [x0, x1, y0, y1] [px, py] (rectangle_boundaries x0 x1 y0 y1) 0 0"
    unfolding rectangle_boundaries_def crossing_loop.simps prod.case Let_def
    using assms s1 s2 s3 by (simp add: l r del: mult_eq_0_iff mult_less_0_iff)
  with box show ?thesis by (simp add: point_in_solid_def)
qed





section \<open>Properties of the coupling driver\<close>

lemma call_quiet: "quiet P \<Longrightarrow> call P ev s = Inr (s\<lparr>trace := trace s @ [ev]\<rparr>)"
  by (simp add: call_def quiet_def)

lemma time_step_body_quiet:
  "quiet P \<Longrightarrow> time_step_body P s = Inr (step_ok P s)"
  by (simp add: time_step_body_def call_quiet step_ok_def step_events_def time_increment_def)


lemma time_current_step_ok [simp]: "time_current (step_ok P s) = time_current s + time_step P"
  by (simp add: step_ok_def)

lemma time_loop_bounded:
  assumes "quiet P"
  shows "end_time P - time_current s \<le> 1 / 10 ^ 12 + real m * time_step P \<Longrightarrow>
         \<exists>n. time_loop P s = Some (Inr ((step_ok P ^^ n) s)) \<and>
             \<not> time_loop_guard P ((step_ok P ^^ n) s) \<and>
             (\<forall>k < n. time_loop_guard P ((step_ok P ^^ k) s))"
proof (induction m arbitrary: s)
  case 0
  then have "\<not> time_loop_guard P s" by (simp add: time_loop_guard_def)
  then have "time_loop P s = Some (Inr ((step_ok P ^^ 0) s)) \<and>
             \<not> time_loop_guard P ((step_ok P ^^ 0) s) \<and>
             (\<forall>k < 0. time_loop_guard P ((step_ok P ^^ k) s))"
    by (simp add: time_loop.simps)
  then show ?case by blast
next
  case (Suc m)
  show ?case
  proof (cases "time_loop_guard P s")
    case False
    then have "time_loop P s = Some (Inr ((step_ok P ^^ 0) s)) \<and>
             \<not> time_loop_guard P ((step_ok P ^^ 0) s) \<and>
             (\<forall>k < 0. time_loop_guard P ((step_ok P ^^ k) s))"
      by (simp add: time_loop.simps)
    then show ?thesis by blast
  next
    case True
    from Suc.prems have "end_time P - time_current (step_ok P s)
        \<le> 1 / 10 ^ 12 + real m * time_step P"
      by (simp add: algebra_simps)
    from Suc.IH [OF this] obtain n where
      n: "time_loop P (step_ok P s) = Some (Inr ((step_ok P ^^ n) (step_ok P s)))"
         "\<not> time_loop_guard P ((step_ok P ^^ n) (step_ok P s))"
         "\<forall>k < n. time_loop_guard P ((step_ok P ^^ k) (step_ok P s))"
      by blast
    have unfold: "time_loop P s = time_loop P (step_ok P s)"
      using True assms by (subst time_loop.simps) (simp add: time_step_body_quiet)
    have "\<forall>k < Suc n. time_loop_guard P ((step_ok P ^^ k) s)"
    proof (intro allI impI)
      fix k assume k: "k < Suc n"
      show "time_loop_guard P ((step_ok P ^^ k) s)"
      proof (cases k)
        case 0
        with True show ?thesis by simp
      next
        case (Suc j)
        with k n(3) show ?thesis by (simp add: funpow_swap1)
      qed
    qed
    with n unfold have "time_loop P s = Some (Inr ((step_ok P ^^ Suc n) s)) \<and>
             \<not> time_loop_guard P ((step_ok P ^^ Suc n) s) \<and>
             (\<forall>k < Suc n. time_loop_guard P ((step_ok P ^^ k) s))"
      by (simp add: funpow_swap1)
    then show ?thesis by blast
  qed
qed

lemma time_loop_terminates:
  assumes "quiet P" "time_step P > 0"
  shows "\<exists>n. time_loop P s = Some (Inr ((step_ok P ^^ n) s)) \<and>
             \<not> time_loop_guard P ((step_ok P ^^ n) s) \<and>
             (\<forall>k < n. time_loop_guard P ((step_ok P ^^ k) s))"
proof -
  obtain m :: nat where "(end_time P - time_current s) / time_step P \<le> real m"
    using real_arch_simple by blast
  with assms(2) have "end_time P - time_current s \<le> real m * time_step P"
    by (simp add: pos_divide_le_eq)
  then have "end_time P - time_current s \<le> 1 / 10 ^ 12 + real m * time_step P"
    by simp
  with assms(1) show ?thesis by (rule time_loop_bounded)
qed


lemma catch_up_char:
  "catch_up P n s =
     s\<lparr>time_current := time_current s + real (n - timestep s) * time_step P,
       timestep := max (timestep s) n,
       trace := trace s @ replicate (n - timestep s) TimeIncrement\<rparr>"
proof (induction P n s rule: catch_up.induct)
  case (1 P n s)
  show ?case
  proof (cases "timestep s < n")
    case False
    then show ?thesis by (subst catch_up.simps) (simp add: max_def)
  next
    case True
    then have d: "n - timestep s = Suc (n - Suc (timestep s))" by simp
    have "catch_up P n s = catch_up P n (time_increment P s)"
      using True by (subst catch_up.simps) simp
    also have "\<dots> = s\<lparr>time_current := time_current s + real (n - timestep s) * time_step P,
       timestep := max (timestep s) n,
       trace := trace s @ replicate (n - timestep s) TimeIncrement\<rparr>"
      using True unfolding "1.IH" [OF True] d
      by (simp add: time_increment_def algebra_simps replicate_app_Cons_same)
    finally show ?thesis .
  qed
qed

lemma initialize_mismatch:
  assumes "quiet P" "fst (restart_times P) \<noteq> snd (restart_times P)"
  shows "initialize P s = Inl (DifferentRestartTimes, trace s @ load_events P)"
  using assms by (simp add: initialize_def call_quiet load_events_def)

lemma initialize_scratch:
  assumes "quiet P" "fst (restart_times P) = snd (restart_times P)" "\<not> loaded P"
  shows "initialize P s =
     Inr (s\<lparr>first_step := True, success_load := False,
            trace := trace s @ load_events P @
              [SolidSetupDofs, SolidInitializeSystem, FluidRefineGlobal, FluidSetupDofs,
               FluidMakeConstraints, FluidInitializeSystem,
               CollectSolidBoundaries, SetupCellHints] @ first_refinement_events P\<rparr>)"
  using assms
  by (simp add: initialize_def call_quiet load_events_def first_refinement_events_def)

lemma initialize_restored:
  assumes "quiet P" "fst (restart_times P) = snd (restart_times P)" "loaded P"
  shows "initialize P s =
     Inr (s\<lparr>time_current :=
              time_current s + real (snd (snd (solid_load P)) - timestep s) * time_step P,
            timestep := max (timestep s) (snd (snd (solid_load P))),
            first_step := False, success_load := True,
            trace := trace s @ load_events P @
              replicate (snd (snd (solid_load P)) - timestep s) TimeIncrement @
              [CollectSolidBoundaries, SetupCellHints] @ first_refinement_events P\<rparr>)"
  using assms
  by (simp add: initialize_def call_quiet load_events_def first_refinement_events_def
      catch_up_char loaded_def)


text \<open>
  C4, amended: at startup, after attempting checkpoint restore for both solvers, if the
  solid and fluid simulation times differ at all (the comparison is exact, there is no
  tolerance) a fatal consistency error is raised before any stepping occurs, also when
  only one of the two restores succeeded; if the times are exactly equal the run
  proceeds: when both restores succeeded with the restored state and the FSI time caught
  up, and otherwise with both solvers set up from scratch.
\<close>

theorem run_restart_time_check:
  assumes "quiet P"
  shows "(fst (restart_times P) \<noteq> snd (restart_times P) \<longrightarrow>
            run P s = Some (Inl (DifferentRestartTimes, trace s @ load_events P))) \<and>
         (fst (restart_times P) = snd (restart_times P) \<and> loaded P \<longrightarrow>
            initialize P s =
              Inr (s\<lparr>time_current :=
                       time_current s +
                       real (snd (snd (solid_load P)) - timestep s) * time_step P,
                     timestep := max (timestep s) (snd (snd (solid_load P))),
                     first_step := False, success_load := True,
                     trace := trace s @ load_events P @
                       replicate (snd (snd (solid_load P)) - timestep s) TimeIncrement @
                       [CollectSolidBoundaries, SetupCellHints] @
                       first_refinement_events P\<rparr>)) \<and>
         (fst (restart_times P) = snd (restart_times P) \<and> \<not> loaded P \<longrightarrow>
            initialize P s =
              Inr (s\<lparr>first_step := True, success_load := False,
                     trace := trace s @ load_events P @
                       [SolidSetupDofs, SolidInitializeSystem, FluidRefineGlobal,
                        FluidSetupDofs, FluidMakeConstraints, FluidInitializeSystem,
                        CollectSolidBoundaries, SetupCellHints] @
                       first_refinement_events P\<rparr>))"
  using assms
  by (simp add: run_def initialize_mismatch initialize_restored initialize_scratch)

text \<open>
  C4 as stated fails: restored times \<open>1\<close> and \<open>1 + 1e-13\<close> are equal within the \<open>1e-12\<close>
  tolerance the driver uses for its time loop (and the same happens for any positive
  tolerance), yet the run aborts; and a run whose fluid restore fails after a solid
  restore at time \<open>1\<close> aborts instead of setting both solvers up from scratch.
\<close>

theorem run_restart_time_within_tolerance_counterexample:
  "\<bar>1 - (1 + 1 / 10 ^ 13)\<bar> \<le> (1 / 10 ^ 12 :: real) \<and>
   run (sample_run_parameters (True, 1, 2) (True, 1 + 1 / 10 ^ 13)) fresh_fsi_state =
     Some (Inl (DifferentRestartTimes,
                [SolidRefineGlobal, SolidLoadCheckpoint, FluidLoadCheckpoint])) \<and>
   \<not> loaded (sample_run_parameters (True, 1, 2) (False, 0)) \<and>
   run (sample_run_parameters (True, 1, 2) (False, 0)) fresh_fsi_state =
     Some (Inl (DifferentRestartTimes,
                [SolidRefineGlobal, SolidLoadCheckpoint, FluidLoadCheckpoint]))"
  by (simp add: run_def initialize_def call_def sample_run_parameters_def fresh_fsi_state_def
      restart_times_def loaded_def)

text \<open>
  The amended statement at three sample runs: different restored times, equal restored
  times, nothing restored.
\<close>

theorem run_restart_time_check_witness:
  "quiet (sample_run_parameters (True, 1, 2) (True, 2)) \<and>
   run (sample_run_parameters (True, 1, 2) (True, 2)) fresh_fsi_state =
     Some (Inl (DifferentRestartTimes,
                [SolidRefineGlobal, SolidLoadCheckpoint, FluidLoadCheckpoint])) \<and>
   quiet (sample_run_parameters (True, 1, 2) (True, 1)) \<and>
   initialize (sample_run_parameters (True, 1, 2) (True, 1)) fresh_fsi_state =
     Inr \<lparr>time_current = 1, timestep = 2, first_step = False, success_load = True,
          trace = [SolidRefineGlobal, SolidLoadCheckpoint, FluidLoadCheckpoint,
                   TimeIncrement, TimeIncrement, CollectSolidBoundaries, SetupCellHints]\<rparr> \<and>
   quiet (sample_run_parameters (False, 0, 0) (False, 0)) \<and>
   initialize (sample_run_parameters (False, 0, 0) (False, 0)) fresh_fsi_state =
     Inr \<lparr>time_current = 0, timestep = 0, first_step = True, success_load = False,
          trace = [SolidRefineGlobal, SolidLoadCheckpoint,
                   SolidSetupDofs, SolidInitializeSystem, FluidRefineGlobal,
                   FluidSetupDofs, FluidMakeConstraints, FluidInitializeSystem,
                   CollectSolidBoundaries, SetupCellHints]\<rparr>"
proof -
  have q: "quiet (sample_run_parameters sl fl)" for sl fl
    by (simp add: quiet_def sample_run_parameters_def)
  have e: "replicate 2 TimeIncrement = [TimeIncrement, TimeIncrement]"
    by (simp add: numeral_2_eq_2)
  from q run_restart_time_check [OF q, of "(True, 1, 2)" "(True, 2)" fresh_fsi_state]
    run_restart_time_check [OF q, of "(True, 1, 2)" "(True, 1)" fresh_fsi_state]
    run_restart_time_check [OF q, of "(False, 0, 0)" "(False, 0)" fresh_fsi_state]
  show ?thesis
    by (simp add: sample_run_parameters_def fresh_fsi_state_def restart_times_def loaded_def
        load_events_def first_refinement_events_def e)
qed


text \<open>
  C8: when no collaborator throws, each pass through the time loop of \<open>run\<close> makes its
  calls in this order: fluid-to-solid traction transfer, solid re-assembly (only when
  restored from a checkpoint), one solid timestep, solid bounding-box update, rebuilding
  of the fluid constraints, reset of the nonzero constraints to the zero constraints
  (in every pass but one made with \<open>first_step\<close> set, and \<open>first_step\<close> is cleared by
  every pass), solid-to-fluid transfer, one fluid timestep, global time increment
  (followed by refinement and checkpointing when due).  With a positive time step the
  loop terminates, after the first pass count at which the end time minus the current
  time is no greater than \<open>1e-12\<close>.
\<close>

theorem run_time_loop_order:
  assumes "quiet P"
  shows "time_step_body P s = Inr (step_ok P s) \<and>
         trace (step_ok P s) =
           trace s @ [FindSolidBC] @
           (if success_load s then [SolidAssembleSystem True] else []) @
           [SolidRunOneStep (first_step s), UpdateSolidBox, FluidMakeConstraints] @
           (if first_step s then []
            else [NonzeroConstraintsClear, NonzeroConstraintsCopyFromZero]) @
           [FindFluidBC, FluidRunOneStep True, TimeIncrement] @
           (if time_to_refine P (timestep s + 1) then [RefineMesh, SetupCellHints] else []) @
           (if time_to_save P (timestep s + 1)
            then [SolidSaveCheckpoint (timestep s + 1), FluidSaveCheckpoint (timestep s + 1)]
            else []) \<and>
         time_current (step_ok P s) = time_current s + time_step P \<and>
         \<not> first_step (step_ok P s) \<and>
         success_load (step_ok P s) = success_load s \<and>
         (0 < time_step P \<longrightarrow>
            (\<exists>n. time_loop P s = Some (Inr ((step_ok P ^^ n) s)) \<and>
                 end_time P - time_current ((step_ok P ^^ n) s) \<le> 1 / 10 ^ 12 \<and>
                 (\<forall>k < n. end_time P - time_current ((step_ok P ^^ k) s) > 1 / 10 ^ 12)))"
proof -
  have "0 < time_step P \<Longrightarrow>
            (\<exists>n. time_loop P s = Some (Inr ((step_ok P ^^ n) s)) \<and>
                 end_time P - time_current ((step_ok P ^^ n) s) \<le> 1 / 10 ^ 12 \<and>
                 (\<forall>k < n. end_time P - time_current ((step_ok P ^^ k) s) > 1 / 10 ^ 12))"
    using time_loop_terminates [OF assms, of s]
    by (simp add: time_loop_guard_def not_less)
  then show ?thesis
    using assms by (simp add: time_step_body_quiet) (simp add: step_ok_def step_events_def)
qed

text \<open>
  The theorem at the sample run, which makes two passes.
\<close>

theorem run_time_loop_order_witness:
  "quiet (sample_run_parameters (False, 0, 0) (False, 0)) \<and>
   0 < time_step (sample_run_parameters (False, 0, 0) (False, 0)) \<and>
   time_step_body (sample_run_parameters (False, 0, 0) (False, 0)) fresh_fsi_state =
     Inr (step_ok (sample_run_parameters (False, 0, 0) (False, 0)) fresh_fsi_state) \<and>
   trace (step_ok (sample_run_parameters (False, 0, 0) (False, 0)) fresh_fsi_state) =
     [FindSolidBC, SolidRunOneStep True, UpdateSolidBox, FluidMakeConstraints,
      FindFluidBC, FluidRunOneStep True, TimeIncrement] \<and>
   time_loop (sample_run_parameters (False, 0, 0) (False, 0)) fresh_fsi_state =
     Some (Inr \<lparr>time_current = 1, timestep = 2, first_step = False, success_load = False,
       trace = [FindSolidBC, SolidRunOneStep True, UpdateSolidBox, FluidMakeConstraints,
                FindFluidBC, FluidRunOneStep True, TimeIncrement,
                FindSolidBC, SolidRunOneStep False, UpdateSolidBox, FluidMakeConstraints,
                NonzeroConstraintsClear, NonzeroConstraintsCopyFromZero,
                FindFluidBC, FluidRunOneStep True, TimeIncrement]\<rparr>)"
proof -
  let ?P = "sample_run_parameters (False, 0, 0) (False, 0)"
  have q: "quiet ?P"
    by (simp add: quiet_def sample_run_parameters_def)
  have t: "0 < time_step ?P"
    by (simp add: sample_run_parameters_def)
  note inst = run_time_loop_order [OF q, of fresh_fsi_state]
  have body: "time_step_body ?P s = Inr (step_ok ?P s)" for s
    using run_time_loop_order [OF q, of s] by blast
  let ?s1 = "step_ok ?P fresh_fsi_state"
  let ?s2 = "step_ok ?P ?s1"
  have g0: "time_loop_guard ?P fresh_fsi_state"
    by (simp add: time_loop_guard_def sample_run_parameters_def fresh_fsi_state_def)
  have g1: "time_loop_guard ?P ?s1"
    by (simp add: time_loop_guard_def sample_run_parameters_def fresh_fsi_state_def)
  have g2: "\<not> time_loop_guard ?P ?s2"
    by (simp add: time_loop_guard_def sample_run_parameters_def fresh_fsi_state_def)
  have "time_loop ?P fresh_fsi_state = time_loop ?P ?s1"
    by (subst time_loop.simps) (simp add: g0 body)
  also have "\<dots> = time_loop ?P ?s2"
    by (subst time_loop.simps) (simp add: g1 body)
  also have "\<dots> = Some (Inr ?s2)"
    by (subst time_loop.simps) (simp add: g2)
  finally have loop: "time_loop ?P fresh_fsi_state = Some (Inr ?s2)" .
  from q t inst loop show ?thesis
    by (simp add: sample_run_parameters_def fresh_fsi_state_def step_ok_def step_events_def)
qed

section \<open>Properties of the Neumann loads\<close>

lemma fold_q_fsi:
  assumes "simulation_type P = ''FSI''"
  shows "snd (fold (neumann_q_body P fe cell face pv) qs (t, rhs)) =
         fold (\<lambda>q. add_surface_load fe cell face q (fsi_traction cell ! (face * n_f_q_points fe + q)))
           qs rhs"
  using assms
  by (induction qs arbitrary: t rhs) (simp_all add: neumann_q_body_def Let_def)

lemma neumann_face_body_fsi:
  assumes "simulation_type P = ''FSI''"
  shows "neumann_face_body sdim P fe cell face rhs =
           (if at_boundary cell face then fsi_face_load fe cell face rhs else rhs)"
  using assms
  by (simp add: neumann_face_body_def Let_def fold_q_fsi fsi_face_load_def)

lemma neumann_face_body_skip:
  assumes "simulation_type P \<noteq> ''FSI''" "solid_neumann_bcs P (boundary_id cell face) = None"
  shows "neumann_face_body sdim P fe cell face rhs = rhs"
  using assms by (simp add: neumann_face_body_def Let_def)


lemma cell_local_rhs_fsi:
  assumes "simulation_type P = ''FSI''" "cell_data_ok sdim fe cell"
  shows "cell_local_rhs sdim P fe cell = Inr (fsi_cell_rhs sdim fe cell)"
proof -
  have "neumann_face_body sdim P fe cell =
          (\<lambda>face rhs. if at_boundary cell face then fsi_face_load fe cell face rhs else rhs)"
    using assms(1) by (intro ext) (rule neumann_face_body_fsi)
  with assms(2) show ?thesis
    by (simp add: cell_local_rhs_def fsi_cell_rhs_def cell_data_ok_def)
qed

lemma HyperElasticity_assemble_system_fsi:
  assumes "simulation_type P = ''FSI''" "\<forall>cell \<in> set cells. cell_data_ok sdim fe cell"
  shows "HyperElasticity_assemble_system sdim P fe cells = Inr (map (fsi_cell_rhs sdim fe) cells)"
  using assms by (induction cells) (simp_all add: cell_local_rhs_fsi)

lemma SharedHyperElasticity_assemble_system_fsi:
  assumes "simulation_type P = ''FSI''" "\<forall>cell \<in> set cells. cell_data_ok sdim fe cell"
  shows "SharedHyperElasticity_assemble_system sdim P fe this_mpi_process cells =
           Inr (map (fsi_cell_rhs sdim fe)
                  (filter (\<lambda>cell. subdomain_id cell = this_mpi_process) cells))"
  using assms by (induction cells) (simp_all add: cell_local_rhs_fsi)

lemma SharedLinearElasticity_assemble_system_fsi:
  assumes "simulation_type P = ''FSI''" "\<forall>cell \<in> set cells. cell_data_ok sdim fe cell"
  shows "SharedLinearElasticity_assemble_system sdim P fe this_mpi_process cells =
           Inr (map (fsi_cell_rhs sdim fe)
                  (filter (\<lambda>cell. subdomain_id cell = this_mpi_process) cells))"
  using assms by (induction cells) (simp_all add: cell_local_rhs_fsi)

text \<open>
  C10: when \<open>simulation_type\<close> is \<open>"FSI"\<close>, \<open>assemble_system\<close> of the three solid solvers
  applies the stored \<open>fsi_traction\<close> of every face quadrature point as surface load on
  every boundary face of every cell (the serial solver assembles all active cells; in the
  shared solvers each process assembles the cells of its own subdomain, so that every
  cell is assembled by the process that owns it), whatever the boundary id of the face, the
  configured \<open>solid_neumann_bcs\<close> and the configured Neumann type are; a boundary face
  whose id is not in \<open>solid_neumann_bcs\<close> is skipped only when the simulation is not FSI.
\<close>

theorem assemble_system_applies_fsi_traction:
  assumes "simulation_type P = ''FSI''" "\<forall>cell \<in> set cells. cell_data_ok sdim fe cell"
  shows "(\<forall>cell face rhs.
            neumann_face_body sdim P fe cell face rhs =
              (if at_boundary cell face then fsi_face_load fe cell face rhs else rhs)) \<and>
         HyperElasticity_assemble_system sdim P fe cells =
           Inr (map (fsi_cell_rhs sdim fe) cells) \<and>
         SharedHyperElasticity_assemble_system sdim P fe this_mpi_process cells =
           Inr (map (fsi_cell_rhs sdim fe)
                  (filter (\<lambda>cell. subdomain_id cell = this_mpi_process) cells)) \<and>
         SharedLinearElasticity_assemble_system sdim P fe this_mpi_process cells =
           Inr (map (fsi_cell_rhs sdim fe)
                  (filter (\<lambda>cell. subdomain_id cell = this_mpi_process) cells)) \<and>
         (\<forall>cell \<in> set cells.
            \<exists>rs rs'.
              SharedHyperElasticity_assemble_system sdim P fe (subdomain_id cell) cells = Inr rs \<and>
              fsi_cell_rhs sdim fe cell \<in> set rs \<and>
              SharedLinearElasticity_assemble_system sdim P fe (subdomain_id cell) cells =
                Inr rs' \<and>
              fsi_cell_rhs sdim fe cell \<in> set rs') \<and>
         (\<forall>P' cell face rhs.
            simulation_type P' \<noteq> ''FSI'' \<and>
            solid_neumann_bcs P' (boundary_id cell face) = None \<longrightarrow>
            neumann_face_body sdim P' fe cell face rhs = rhs)"
  using assms
  by (auto simp: neumann_face_body_fsi HyperElasticity_assemble_system_fsi
      SharedHyperElasticity_assemble_system_fsi SharedLinearElasticity_assemble_system_fsi
      neumann_face_body_skip)


text \<open>
  The theorem at the sample cell: the load \<open>(3, 4) * 1/2\<close> of face 1 is added in FSI
  mode, and nothing is added in a stand-alone simulation.
\<close>

theorem assemble_system_applies_fsi_traction_witness:
  "simulation_type sample_fsi_parameters = ''FSI'' \<and>
   cell_data_ok 2 sample_fe sample_assembly_cell \<and>
   HyperElasticity_assemble_system 2 sample_fsi_parameters sample_fe [sample_assembly_cell] =
     Inr [[5/2, 3]] \<and>
   SharedHyperElasticity_assemble_system 2 sample_fsi_parameters sample_fe 0
     [sample_assembly_cell] = Inr [[5/2, 3]] \<and>
   SharedLinearElasticity_assemble_system 2 sample_fsi_parameters sample_fe 0
     [sample_assembly_cell] = Inr [[5/2, 3]] \<and>
   neumann_face_body 2 (sample_fsi_parameters\<lparr>simulation_type := ''Solid''\<rparr>) sample_fe
     sample_assembly_cell 1 [1, 1] = [1, 1]"
proof -
  have f: "simulation_type sample_fsi_parameters = ''FSI''"
    by (simp add: sample_fsi_parameters_def)
  have d: "\<forall>cell \<in> set [sample_assembly_cell]. cell_data_ok 2 sample_fe cell"
    by (simp add: cell_data_ok_def sample_assembly_cell_def sample_fe_def faces_per_cell_def)
  have u: "[0..<4] = [0, 1, 2, 3]" "[0..<2] = [0, 1]" "[0..<1] = [0]"
    by (simp_all add: upt_rec)
  have r: "fsi_cell_rhs 2 sample_fe sample_assembly_cell = [5/2, 3]"
    by (simp add: fsi_cell_rhs_def fsi_face_load_def add_surface_load_def faces_per_cell_def
        sample_assembly_cell_def sample_fe_def u)
  have n: "simulation_type (sample_fsi_parameters\<lparr>simulation_type := ''Solid''\<rparr>) \<noteq> ''FSI'' \<and>
           solid_neumann_bcs (sample_fsi_parameters\<lparr>simulation_type := ''Solid''\<rparr>)
             (boundary_id sample_assembly_cell 1) = None"
    by (simp add: sample_fsi_parameters_def)
  from assemble_system_applies_fsi_traction [OF f d, of 0] f d r n show ?thesis
    by (simp add: sample_assembly_cell_def)
qed

section \<open>Properties of the traction transfer\<close>

text \<open>
  C5 at a failing input: the comment in \<open>find_solid_bc\<close> reads "Current face is at
  boundary and without Dirichlet bc", but the test is \<open>at_boundary()\<close> alone.  Face 0 of
  the sample cell carries a prescribed Dirichlet condition and still receives the traction
  \<open>\<sigma> n = (2, -1/2)\<close> formed from the values summed over the ranks.
\<close>

theorem find_solid_bc_updates_dirichlet_face:
  "face_at_boundary sample_traction_cell 0 \<and>
   face_boundary_id sample_traction_cell 0 \<in> dom sample_solid_dirichlet_bcs \<and>
   cell_fsi_traction sample_traction_cell ! 0 = [0, 0] \<and>
   map cell_fsi_traction (find_solid_bc 2 (1/4) 1 sample_fluid [sample_traction_cell]) =
     [[[2, - 1/2], [0, 0], [0, 0], [0, 0]]]"
proof -
  have u: "[0..<4] = [0, 1, 2, 3]" "[0..<3] = [0, 1, 2]" "[0..<2] = [0, 1]" "[0..<1] = [0]"
    by (simp_all add: upt_rec)
  have t: "face_traction 2 (1/4) sample_fluid [0, 1/2] [-1, 0] = [2, - 1/2]"
    by (simp add: face_traction_def sample_fluid_def MPI_sum_def fluid_stress_def
        sym_deformation_def contract_def u)
  show ?thesis
    by (simp add: find_solid_bc_def find_solid_bc_face_def sample_traction_cell_def
        sample_solid_dirichlet_bcs_def u t)
qed

section \<open>Properties of the solid-to-fluid transfer\<close>

lemma fold_indicator_nonzero:
  "indicator pr \<noteq> 0 \<Longrightarrow>
   fold (\<lambda>i pr. if indicator pr = 0 then f i pr else pr) is pr = pr"
  by (induction "is") simp_all

lemma quadrature_point_step_stores_zero:
  "quadrature_point_step G S ph f_cell q ptr =
     ptr[q := (ptr ! q)\<lparr>indicator := (if in_solid G (quadrature_points f_cell ! q) then 1 else 0),
                         fsi_acceleration := replicate (space_dim G) 0,
                         fsi_stress := replicate (space_dim G) (replicate (space_dim G) 0)\<rparr>]"
  by (simp add: quadrature_point_step_def Let_def fold_indicator_nonzero)

lemma sample_in_solid:
  "in_solid sample_geometry [1/2, 1/2]" "in_solid sample_geometry [3/4, 3/4]"
  by (simp_all add: in_solid_def sample_geometry_def rectangle_interior)

lemma sample_upt: "[0..<4] = [0, 1, 2, 3]" "[0..<2] = [0, 1]" "[0..<1] = [0]"
  by (simp_all add: upt_rec)

text \<open>
  C1 at a failing input: the quadrature point \<open>(3/4, 3/4)\<close> of the locally owned sample
  cell is inside the solid; the claim gives \<open>fsi_acceleration = (2 - 1) * ((0,-1) - 0) =
  (0,-1)\<close> and \<open>fsi_stress = -I\<close>, but both assignments are guarded by
  \<open>indicator == 0\<close> after the \<open>continue\<close> that has already excluded it, and the stored
  values are the zeros written before.
\<close>

theorem find_fluid_bc_stores_zero_forcing:
  "in_solid sample_geometry (quadrature_points sample_fluid_cell ! 0) \<and>
   map (\<lambda>i. (solid_rho sample_physics - fluid_rho sample_physics) *
            (gravity sample_physics ! i -
             solid_acceleration_at sample_solid_fields (quadrature_points sample_fluid_cell ! 0) ! i))
       [0..<2] = [0, - 1] \<and>
   tensor2_minus
     (fluid_stress 2 (viscosity sample_physics) (pressure_values sample_fluid_cell ! 0)
        (sym_grad_v sample_fluid_cell ! 0))
     (solid_sigma sample_geometry sample_solid_fields (quadrature_points sample_fluid_cell ! 0)) =
     [[- 1, 0], [0, - 1]] \<and>
   map_sum (\<lambda>e. e) (\<lambda>res. map cell_property (fluid_cells (result_fluid res)))
     (find_fluid_bc sample_geometry sample_solid_fields sample_physics sample_fluid_fe
        sample_fluid_solver) =
     Inr [[\<lparr>indicator = 1, fsi_acceleration = [0, 0], fsi_stress = [[0, 0], [0, 0]]\<rparr>]]"
proof -
  have q: "quadrature_points sample_fluid_cell ! 0 = [3/4, 3/4]"
    by (simp add: sample_fluid_cell_def)
  have a: "in_solid sample_geometry (quadrature_points sample_fluid_cell ! 0)"
    by (simp add: q sample_in_solid)
  have b: "map (\<lambda>i. (solid_rho sample_physics - fluid_rho sample_physics) *
            (gravity sample_physics ! i -
             solid_acceleration_at sample_solid_fields (quadrature_points sample_fluid_cell ! 0) ! i))
       [0..<2] = [0, - 1]"
    by (simp add: sample_physics_def sample_solid_fields_def sample_upt)
  have c: "tensor2_minus
     (fluid_stress 2 (viscosity sample_physics) (pressure_values sample_fluid_cell ! 0)
        (sym_grad_v sample_fluid_cell ! 0))
     (solid_sigma sample_geometry sample_solid_fields (quadrature_points sample_fluid_cell ! 0)) =
     [[- 1, 0], [0, - 1]]"
    by (simp add: tensor2_minus_def fluid_stress_def solid_sigma_def sample_physics_def
        sample_solid_fields_def sample_fluid_cell_def sample_geometry_def sample_upt)
  have s: "support_points sample_fluid_cell ! 0 = [1/2, 1/2]"
          "support_points sample_fluid_cell ! Suc 0 = [1/2, 1/2]"
    by (simp_all add: sample_fluid_cell_def)
  have d: "map_sum (\<lambda>e. e) (\<lambda>res. map cell_property (fluid_cells (result_fluid res)))
     (find_fluid_bc sample_geometry sample_solid_fields sample_physics sample_fluid_fe
        sample_fluid_solver) =
     Inr [[\<lparr>indicator = 1, fsi_acceleration = [0, 0], fsi_stress = [[0, 0], [0, 0]]\<rparr>]]"
    by (simp add: find_fluid_bc_def fluid_cell_step_def support_point_step_def
        quadrature_point_step_stores_zero a s sample_in_solid
        initial_fluid_bc_state_def in_cell_support_point_def sample_upt
        sample_fluid_solver_def sample_fluid_fe_def
        sample_fluid_cell_def [THEN arg_cong, of is_artificial]
        sample_fluid_cell_def [THEN arg_cong, of is_locally_owned]
        sample_fluid_cell_def [THEN arg_cong, of dof_indices]
        sample_fluid_cell_def [THEN arg_cong, of hints]
        sample_fluid_cell_def [THEN arg_cong, of cell_property]
        sample_solid_fields_def
        sample_geometry_def [THEN arg_cong, of space_dim] numeral_2_eq_2 numeral_3_eq_3)
  from a b c d show ?thesis by blast
qed


lemma fold_error_append:
  "fold_error f (xs @ ys) s =
     (case fold_error f xs s of Inl e \<Rightarrow> Inl e | Inr s' \<Rightarrow> fold_error f ys s')"
  by (induction xs arbitrary: s) (simp_all split: sum.splits)

lemma support_point_step_hints:
  assumes "h ! i = hints c ! i"
  shows "case support_update G S fe present (c, i) st of
           Inl e \<Rightarrow> support_point_step G S fe present c i (st, h) = Inl e
         | Inr st' \<Rightarrow> \<exists>h'. support_point_step G S fe present c i (st, h) = Inr (st', h') \<and>
                        (\<forall>j. j \<noteq> i \<longrightarrow> h' ! j = h ! j)"
  using assms
  by (auto simp: support_update_def support_point_step_def Let_def split: sum.splits)


lemma support_loop_cell:
  assumes "distinct is" "\<forall>j \<in> set is. h ! j = hints c ! j"
  shows "map_sum (\<lambda>e. e) fst (fold_error (support_point_step G S fe present c) is (st, h)) =
         fold_error (support_update G S fe present) (map (Pair c) is) st"
  using assms
proof (induction "is" arbitrary: st h)
  case Nil
  then show ?case by simp
next
  case (Cons i "is")
  from Cons.prems have hi: "h ! i = hints c ! i" by simp
  show ?case
  proof (cases "support_update G S fe present (c, i) st")
    case (Inl e)
    with support_point_step_hints [OF hi, of G S fe present st]
    show ?thesis by simp
  next
    case (Inr st')
    with support_point_step_hints [OF hi, of G S fe present st]
    obtain h' where h': "support_point_step G S fe present c i (st, h) = Inr (st', h')"
      "\<forall>j. j \<noteq> i \<longrightarrow> h' ! j = h ! j"
      by auto
    from Cons.prems h'(2) have a: "\<forall>j \<in> set is. h' ! j = hints c ! j" by auto
    from Cons.prems have d: "distinct is" by simp
    from d a have "map_sum (\<lambda>e. e) fst (fold_error (support_point_step G S fe present c) is (st', h')) =
         fold_error (support_update G S fe present) (map (Pair c) is) st'"
      by (rule Cons.IH)
    with Inr h'(1) show ?thesis by simp
  qed
qed

lemma fluid_cell_step_state:
  "map_sum (\<lambda>e. e) fst (fluid_cell_step G S ph fe present c st) =
     (if is_artificial c then Inr st
      else fold_error (support_update G S fe present)
             (map (Pair c) [0..<length (unit_points fe)]) st)"
proof (cases "is_artificial c")
  case True
  then show ?thesis by (simp add: fluid_cell_step_def)
next
  case False
  have "map_sum (\<lambda>e. e) fst (fold_error (support_point_step G S fe present c)
            [0..<length (unit_points fe)] (st, hints c)) =
        fold_error (support_update G S fe present)
            (map (Pair c) [0..<length (unit_points fe)]) st"
    by (rule support_loop_cell) simp_all
  with False show ?thesis
    by (auto simp: fluid_cell_step_def split: sum.splits prod.splits)
qed

lemma fluid_cells_loop_state:
  "map_sum (\<lambda>e. e) fst (fluid_cells_loop G S ph fe present cs st) =
     fold_error (support_update G S fe present) (support_work fe cs) st"
proof (induction cs arbitrary: st)
  case Nil
  show ?case by (simp add: support_work_def)
next
  case (Cons c cs)
  have w: "support_work fe (c # cs) =
      (if is_artificial c then [] else map (Pair c) [0..<length (unit_points fe)]) @
      support_work fe cs"
    by (simp add: support_work_def)
  show ?case
  proof (cases "fluid_cell_step G S ph fe present c st")
    case (Inl e)
    with fluid_cell_step_state [of G S ph fe present c st]
    show ?thesis
      by (auto simp: w fold_error_append split: if_splits sum.splits)
  next
    case (Inr r)
    obtain st' c' where r: "r = (st', c')" by (cases r)
    from Inr r fluid_cell_step_state [of G S ph fe present c st]
    have "(if is_artificial c then Inr st
      else fold_error (support_update G S fe present)
             (map (Pair c) [0..<length (unit_points fe)]) st) = Inr st'"
      by simp
    then have pre: "fold_error (support_update G S fe present)
        (if is_artificial c then [] else map (Pair c) [0..<length (unit_points fe)]) st = Inr st'"
      by (simp split: if_splits)
    from Cons.IH [of st'] Inr r show ?thesis
      by (auto simp: w fold_error_append pre split: sum.splits)
  qed
qed


lemma support_update_preserves:
  assumes "support_update G S fe present ci st = Inr st'"
  shows "(lines_touched st \<longrightarrow> lines_touched st') \<and>
         (\<forall>d. dof_touched st d \<noteq> 0 \<longrightarrow>
            dof_touched st' d \<noteq> 0 \<and> inner_nonzero st' d = inner_nonzero st d \<and>
            inner_zero st' d = inner_zero st d)"
  using assms
  by (auto simp: support_update_def support_point_step_def Let_def lines_touched_def
      add_line_def set_inhomogeneity_def split: if_splits option.splits)

lemma support_loop_preserves:
  assumes "fold_error (support_update G S fe present) work st = Inr st'"
  shows "(lines_touched st \<longrightarrow> lines_touched st') \<and>
         (\<forall>d. dof_touched st d \<noteq> 0 \<longrightarrow>
            dof_touched st' d \<noteq> 0 \<and> inner_nonzero st' d = inner_nonzero st d \<and>
            inner_zero st' d = inner_zero st d)"
  using assms
proof (induction work arbitrary: st)
  case Nil
  then show ?case by simp
next
  case (Cons ci work)
  from Cons.prems obtain st1 where
    s1: "support_update G S fe present ci st = Inr st1" and
    s2: "fold_error (support_update G S fe present) work st1 = Inr st'"
    by (auto split: sum.splits)
  from support_update_preserves [OF s1] Cons.IH [OF s2] show ?case
    by auto
qed

lemma support_update_inside:
  assumes "dof_touched st (dof_indices c ! i) = 0" "dirichlet_candidate G fe i"
    "base_group fe i < 2" "component_index fe i < space_dim G"
    "in_solid G (support_points c ! i)" "lines_touched st"
  shows "support_update G S fe present (c, i) st =
     (if found_cell S (support_points c ! i)
           (locator_search S (support_points c ! i) (hints c ! i))
      then Inr (st\<lparr>dof_touched := (dof_touched st)(dof_indices c ! i := 1),
                  inner_nonzero := (inner_nonzero st)(dof_indices c ! i \<mapsto>
                     \<lparr>entries = [], inhomogeneity = dirichlet_increment S fe present c i\<rparr>),
                  inner_zero := (inner_zero st)(dof_indices c ! i \<mapsto>
                     \<lparr>entries = [], inhomogeneity = 0\<rparr>)\<rparr>)
      else Inl (CannotFindPointInSolid (support_points c ! i)))"
  using assms
  by (auto simp: support_update_def support_point_step_def Let_def lines_touched_def
      add_line_def set_inhomogeneity_def dirichlet_candidate_def dirichlet_increment_def)

lemma support_update_outside:
  assumes "dof_touched st (dof_indices c ! i) = 0" "dirichlet_candidate G fe i"
    "base_group fe i < 2" "component_index fe i < space_dim G"
    "\<not> in_solid G (support_points c ! i)"
  shows "support_point_step G S fe present c i (st, h) =
           Inr (st\<lparr>dof_touched := (dof_touched st)(dof_indices c ! i := 1)\<rparr>, h)"
  using assms
  by (auto simp: support_point_step_def Let_def dirichlet_candidate_def)


lemma support_update_asserts:
  assumes "support_update G S fe present (c, i) st = Inr st'"
    "dof_touched st (dof_indices c ! i) = 0" "dirichlet_candidate G fe i"
  shows "base_group fe i < 2 \<and> component_index fe i < space_dim G"
  using assms
  by (auto simp: support_update_def support_point_step_def Let_def dirichlet_candidate_def
      split: if_splits)

lemma lines_touched_initial: "lines_touched initial_fluid_bc_state"
  by (simp add: lines_touched_def initial_fluid_bc_state_def)

lemma find_fluid_bc_Inr:
  assumes "find_fluid_bc G S ph fe fluid = Inr res"
  shows "\<exists>st. fold_error (support_update G S fe (present_solution fluid))
                (support_work fe (fluid_cells fluid)) initial_fluid_bc_state = Inr st \<and>
              result_inner_nonzero res = inner_nonzero st \<and>
              result_inner_zero res = inner_zero st \<and>
              nonzero_constraints (result_fluid res) =
                merge_left_object_wins (nonzero_constraints fluid) (inner_nonzero st) \<and>
              zero_constraints (result_fluid res) =
                merge_left_object_wins (zero_constraints fluid) (inner_zero st)"
proof -
  from assms obtain st cs where
    l: "fluid_cells_loop G S ph fe (present_solution fluid) (fluid_cells fluid)
          initial_fluid_bc_state = Inr (st, cs)"
    and r: "res = \<lparr>result_inner_nonzero = inner_nonzero st,
               result_inner_zero = inner_zero st,
               result_fluid =
                 fluid\<lparr>nonzero_constraints :=
                         merge_left_object_wins (nonzero_constraints fluid) (inner_nonzero st),
                       zero_constraints :=
                         merge_left_object_wins (zero_constraints fluid) (inner_zero st),
                       fluid_cells := cs\<rparr>\<rparr>"
    by (auto simp: find_fluid_bc_def split: sum.splits prod.splits)
  from l fluid_cells_loop_state [of G S ph fe "present_solution fluid" "fluid_cells fluid"
      initial_fluid_bc_state]
  have "fold_error (support_update G S fe (present_solution fluid))
                (support_work fe (fluid_cells fluid)) initial_fluid_bc_state = Inr st"
    by simp
  with r show ?thesis by simp
qed

lemma find_fluid_bc_Inl:
  assumes "fold_error (support_update G S fe (present_solution fluid))
                (support_work fe (fluid_cells fluid)) initial_fluid_bc_state = Inl e"
  shows "find_fluid_bc G S ph fe fluid = Inl e"
proof -
  from assms fluid_cells_loop_state [of G S ph fe "present_solution fluid" "fluid_cells fluid"
      initial_fluid_bc_state]
  have "fluid_cells_loop G S ph fe (present_solution fluid) (fluid_cells fluid)
          initial_fluid_bc_state = Inl e"
    by (cases "fluid_cells_loop G S ph fe (present_solution fluid) (fluid_cells fluid)
          initial_fluid_bc_state") simp_all
  then show ?thesis by (simp add: find_fluid_bc_def)
qed

lemma support_work_split:
  assumes "work = pre @ ci # post"
    "fold_error f pre s0 = Inr s"
  shows "fold_error f work s0 =
           (case f ci s of Inl e \<Rightarrow> Inl e | Inr s1 \<Rightarrow> fold_error f post s1)"
  using assms by (simp add: fold_error_append)


text \<open>
  The support points that pass the skip test of the source get the increment as their
  inhomogeneity.  Let a run of \<open>find_fluid_bc\<close> that does not abort reach the support point
  \<open>i\<close> of the non-artificial cell \<open>c\<close> with its dof not yet touched, and let the support
  point be no pressure dof, have a unit coordinate below \<open>1e-5\<close> in absolute value (what
  the source tests before it skips a point as in-cell), and be classified inside the solid.  Then the
  inner nonzero constraints get a line for that dof whose inhomogeneity is the solid
  velocity component interpolated at the support point minus \<open>present_solution\<close> at the
  dof, the inner zero constraints get a line with inhomogeneity zero, and both lines
  are what the fluid solver's constraint objects hold after the merge unless the solver
  had constrained the dof itself.
\<close>

lemma find_fluid_bc_dirichlet_increment:
  assumes "support_work fe (fluid_cells fluid) = pre @ (c, i) # post"
    and "fold_error (support_update G S fe (present_solution fluid)) pre
           initial_fluid_bc_state = Inr st"
    and "dof_touched st (dof_indices c ! i) = 0"
    and "dirichlet_candidate G fe i"
    and "in_solid G (support_points c ! i)"
    and "find_fluid_bc G S ph fe fluid = Inr res"
  shows "result_inner_nonzero res (dof_indices c ! i) =
           Some \<lparr>entries = [],
                 inhomogeneity = dirichlet_increment S fe (present_solution fluid) c i\<rparr> \<and>
         result_inner_zero res (dof_indices c ! i) = Some \<lparr>entries = [], inhomogeneity = 0\<rparr> \<and>
         nonzero_constraints (result_fluid res) (dof_indices c ! i) =
           (case nonzero_constraints fluid (dof_indices c ! i) of
              Some l \<Rightarrow> Some l
            | None \<Rightarrow> Some \<lparr>entries = [],
                 inhomogeneity = dirichlet_increment S fe (present_solution fluid) c i\<rparr>) \<and>
         zero_constraints (result_fluid res) (dof_indices c ! i) =
           (case zero_constraints fluid (dof_indices c ! i) of
              Some l \<Rightarrow> Some l
            | None \<Rightarrow> Some \<lparr>entries = [], inhomogeneity = 0\<rparr>)"
proof -
  let ?upd = "support_update G S fe (present_solution fluid)"
  let ?dof = "dof_indices c ! i"
  from find_fluid_bc_Inr [OF assms(6)] obtain stf where
    f: "fold_error ?upd (support_work fe (fluid_cells fluid)) initial_fluid_bc_state = Inr stf"
    and r: "result_inner_nonzero res = inner_nonzero stf"
      "result_inner_zero res = inner_zero stf"
      "nonzero_constraints (result_fluid res) =
         merge_left_object_wins (nonzero_constraints fluid) (inner_nonzero stf)"
      "zero_constraints (result_fluid res) =
         merge_left_object_wins (zero_constraints fluid) (inner_zero stf)"
    by blast
  from f support_work_split [OF assms(1) assms(2)] obtain st1 where
    s1: "?upd (c, i) st = Inr st1" and s2: "fold_error ?upd post st1 = Inr stf"
    by (auto split: sum.splits)
  have lt: "lines_touched st"
    using support_loop_preserves [OF assms(2)] lines_touched_initial by blast
  from support_update_asserts [OF s1 assms(3) assms(4)]
  have a: "base_group fe i < 2" "component_index fe i < space_dim G" by simp_all
  from s1 support_update_inside [OF assms(3) assms(4) a assms(5) lt, of S "present_solution fluid"]
  have st1: "st1 = st\<lparr>dof_touched := (dof_touched st)(?dof := 1),
                  inner_nonzero := (inner_nonzero st)(?dof \<mapsto>
                     \<lparr>entries = [],
                      inhomogeneity = dirichlet_increment S fe (present_solution fluid) c i\<rparr>),
                  inner_zero := (inner_zero st)(?dof \<mapsto>
                     \<lparr>entries = [], inhomogeneity = 0\<rparr>)\<rparr>"
    by (simp split: if_splits)
  then have "dof_touched st1 ?dof \<noteq> 0" by simp
  with support_loop_preserves [OF s2]
  have "inner_nonzero stf ?dof = inner_nonzero st1 ?dof"
       "inner_zero stf ?dof = inner_zero st1 ?dof"
    by blast+
  with st1 r show ?thesis
    by (simp add: merge_left_object_wins_def split: option.splits)
qed

text \<open>
  C7: let \<open>find_fluid_bc\<close> reach a velocity support point that is not in-cell, with its dof
  not yet touched.  If the point is not classified inside the solid, the loop body
  only marks the dof as touched and goes on (no constraint line, no error), and the dof
  has no inner constraint line at the end.  If the point is classified inside the
  solid and the interpolator built on the located cell has not found a cell,
  \<open>find_fluid_bc\<close> aborts with "Cannot find point in solid" for that point.
\<close>

theorem find_fluid_bc_skip_or_abort:
  assumes "support_work fe (fluid_cells fluid) = pre @ (c, i) # post"
    and "fold_error (support_update G S fe (present_solution fluid)) pre
           initial_fluid_bc_state = Inr st"
    and "dof_touched st (dof_indices c ! i) = 0"
    and "dirichlet_candidate G fe i"
    and "base_group fe i < 2" and "component_index fe i < space_dim G"
  shows "(\<not> in_solid G (support_points c ! i) \<longrightarrow>
            support_point_step G S fe (present_solution fluid) c i (st, h) =
              Inr (st\<lparr>dof_touched := (dof_touched st)(dof_indices c ! i := 1)\<rparr>, h) \<and>
            (\<forall>res. find_fluid_bc G S ph fe fluid = Inr res \<longrightarrow>
               result_inner_nonzero res (dof_indices c ! i) = None \<and>
               result_inner_zero res (dof_indices c ! i) = None)) \<and>
         (in_solid G (support_points c ! i) \<and>
          \<not> found_cell S (support_points c ! i)
              (locator_search S (support_points c ! i) (hints c ! i)) \<longrightarrow>
            find_fluid_bc G S ph fe fluid =
              Inl (CannotFindPointInSolid (support_points c ! i)))"
proof (intro conjI impI allI)
  let ?upd = "support_update G S fe (present_solution fluid)"
  let ?dof = "dof_indices c ! i"
  have lt: "lines_touched st"
    using support_loop_preserves [OF assms(2)] lines_touched_initial by blast
  {
    assume out: "\<not> in_solid G (support_points c ! i)"
    show "support_point_step G S fe (present_solution fluid) c i (st, h) =
              Inr (st\<lparr>dof_touched := (dof_touched st)(?dof := 1)\<rparr>, h)"
      using assms(3,4,5,6) out by (rule support_update_outside)
    fix res assume res: "find_fluid_bc G S ph fe fluid = Inr res"
    from find_fluid_bc_Inr [OF res] obtain stf where
      f: "fold_error ?upd (support_work fe (fluid_cells fluid)) initial_fluid_bc_state = Inr stf"
      and r: "result_inner_nonzero res = inner_nonzero stf"
        "result_inner_zero res = inner_zero stf"
      by blast
    from f support_work_split [OF assms(1) assms(2)] obtain st1 where
      s1: "?upd (c, i) st = Inr st1" and s2: "fold_error ?upd post st1 = Inr stf"
      by (auto split: sum.splits)
    from s1 support_update_outside [OF assms(3,4,5,6) out, of S "present_solution fluid" "hints c"]
    have st1: "st1 = st\<lparr>dof_touched := (dof_touched st)(?dof := 1)\<rparr>"
      by (simp add: support_update_def)
    from lt assms(3) have "inner_nonzero st ?dof = None" "inner_zero st ?dof = None"
      by (simp_all add: lines_touched_def)
    with st1 have n1: "inner_nonzero st1 ?dof = None" "inner_zero st1 ?dof = None"
      and t1: "dof_touched st1 ?dof \<noteq> 0"
      by simp_all
    from t1 support_loop_preserves [OF s2]
    have "inner_nonzero stf ?dof = inner_nonzero st1 ?dof"
         "inner_zero stf ?dof = inner_zero st1 ?dof"
      by blast+
    with n1 r show "result_inner_nonzero res ?dof = None" "result_inner_zero res ?dof = None"
      by simp_all
  }
  {
    assume ins: "in_solid G (support_points c ! i) \<and>
          \<not> found_cell S (support_points c ! i)
              (locator_search S (support_points c ! i) (hints c ! i))"
    then have ins1: "in_solid G (support_points c ! i)" by simp
    from ins support_update_inside [OF assms(3,4,5,6) ins1 lt, of S "present_solution fluid"]
    have "?upd (c, i) st = Inl (CannotFindPointInSolid (support_points c ! i))"
      by simp
    with support_work_split [OF assms(1) assms(2)]
    have "fold_error ?upd (support_work fe (fluid_cells fluid)) initial_fluid_bc_state =
            Inl (CannotFindPointInSolid (support_points c ! i))"
      by simp
    then show "find_fluid_bc G S ph fe fluid =
              Inl (CannotFindPointInSolid (support_points c ! i))"
      by (rule find_fluid_bc_Inl)
  }
qed


lemma sample_cell_fields:
  "is_artificial sample_fluid_cell = False"
  "dof_indices sample_fluid_cell = [0, 1, 2, 3]"
  "support_points sample_fluid_cell = [[1/2, 1/2], [1/2, 1/2], [1/2, 1/2], [3/2, 3/2]]"
  "hints sample_fluid_cell = [0, 0, 0, 0]"
  by (simp_all add: sample_fluid_cell_def)

lemma sample_far_cell_fields:
  "is_artificial sample_far_cell = False"
  "dof_indices sample_far_cell = [0, 1, 2, 3]"
  "support_points sample_far_cell = [[5/2, 5/2], [5/2, 5/2], [5/2, 5/2], [7/2, 7/2]]"
  "hints sample_far_cell = [0, 0, 0, 0]"
  by (simp_all add: sample_far_cell_def sample_fluid_cell_def)

lemma sample_candidates:
  "dirichlet_candidate sample_geometry sample_fluid_fe 0"
  "dirichlet_candidate sample_geometry sample_fluid_fe 1"
  "base_group sample_fluid_fe 0 < 2"
  "component_index sample_fluid_fe 0 < space_dim sample_geometry"
  "base_group sample_fluid_fe 1 < 2"
  "component_index sample_fluid_fe 1 < space_dim sample_geometry"
  by (simp_all add: dirichlet_candidate_def sample_fluid_fe_def sample_geometry_def
      in_cell_support_point_def sample_upt)

lemma sample_work:
  "\<not> is_artificial c \<Longrightarrow>
   support_work sample_fluid_fe [c] = [] @ (c, 0) # [(c, 1), (c, 2), (c, 3)]"
  "\<not> is_artificial c \<Longrightarrow>
   support_work sample_fluid_fe [c] = [(c, 0)] @ (c, 1) # [(c, 2), (c, 3)]"
  by (simp_all add: support_work_def sample_fluid_fe_def sample_upt)

lemma sample_not_in_solid: "\<not> in_solid sample_geometry [5/2, 5/2]"
  by (simp add: in_solid_def sample_geometry_def point_in_solid_def outside_solid_box_def
      sample_upt)

lemma sample_first_step:
  "fold_error (support_update sample_geometry sample_solid_fields sample_fluid_fe (\<lambda>dof. 1))
     [(sample_fluid_cell, 0)] initial_fluid_bc_state = Inr sample_state_after_first"
proof -
  have t: "dof_touched initial_fluid_bc_state (dof_indices sample_fluid_cell ! 0) = 0"
    by (simp add: initial_fluid_bc_state_def)
  have i: "in_solid sample_geometry (support_points sample_fluid_cell ! 0)"
    by (simp add: sample_cell_fields sample_in_solid)
  show ?thesis
    using support_update_inside [OF t sample_candidates(1,3,4) i lines_touched_initial,
        of sample_solid_fields "\<lambda>dof. 1"]
    by (simp add: sample_state_after_first_def sample_cell_fields dirichlet_increment_def
        sample_solid_fields_def sample_fluid_fe_def)
qed

lemma sample_find_fluid_bc_ok:
  "\<exists>res. find_fluid_bc sample_geometry sample_solid_fields sample_physics sample_fluid_fe
     sample_fluid_solver = Inr res"
  by (simp add: find_fluid_bc_def fluid_cell_step_def support_point_step_def
        sample_in_solid sample_cell_fields
        initial_fluid_bc_state_def in_cell_support_point_def sample_upt
        sample_fluid_solver_def sample_fluid_fe_def
        sample_solid_fields_def
        sample_geometry_def [THEN arg_cong, of space_dim] numeral_2_eq_2 numeral_3_eq_3)


text \<open>
  The increment at the sample cell, second support point: solid velocity component \<open>4\<close>,
  fluid value \<open>1\<close>, increment \<open>3\<close>.
\<close>

lemma find_fluid_bc_dirichlet_increment_sample:
  "support_work sample_fluid_fe (fluid_cells sample_fluid_solver) =
     [(sample_fluid_cell, 0)] @ (sample_fluid_cell, 1) #
     [(sample_fluid_cell, 2), (sample_fluid_cell, 3)] \<and>
   fold_error (support_update sample_geometry sample_solid_fields sample_fluid_fe
                 (present_solution sample_fluid_solver))
     [(sample_fluid_cell, 0)] initial_fluid_bc_state = Inr sample_state_after_first \<and>
   dof_touched sample_state_after_first (dof_indices sample_fluid_cell ! 1) = 0 \<and>
   dirichlet_candidate sample_geometry sample_fluid_fe 1 \<and>
   in_solid sample_geometry (support_points sample_fluid_cell ! 1) \<and>
   (\<exists>res. find_fluid_bc sample_geometry sample_solid_fields sample_physics sample_fluid_fe
            sample_fluid_solver = Inr res \<and>
          result_inner_nonzero res 1 = Some \<lparr>entries = [], inhomogeneity = 3\<rparr> \<and>
          result_inner_zero res 1 = Some \<lparr>entries = [], inhomogeneity = 0\<rparr> \<and>
          nonzero_constraints (result_fluid res) 1 = Some \<lparr>entries = [], inhomogeneity = 3\<rparr> \<and>
          zero_constraints (result_fluid res) 1 = Some \<lparr>entries = [], inhomogeneity = 0\<rparr>)"
proof -
  have w: "support_work sample_fluid_fe (fluid_cells sample_fluid_solver) =
     [(sample_fluid_cell, 0)] @ (sample_fluid_cell, 1) #
     [(sample_fluid_cell, 2), (sample_fluid_cell, 3)]"
    using sample_work(2) [of sample_fluid_cell]
    by (simp add: sample_fluid_solver_def sample_cell_fields)
  have p: "present_solution sample_fluid_solver = (\<lambda>dof. 1)"
    by (simp add: sample_fluid_solver_def)
  have f: "fold_error (support_update sample_geometry sample_solid_fields sample_fluid_fe
                 (present_solution sample_fluid_solver))
     [(sample_fluid_cell, 0)] initial_fluid_bc_state = Inr sample_state_after_first"
    by (simp only: p sample_first_step)
  have t: "dof_touched sample_state_after_first (dof_indices sample_fluid_cell ! 1) = 0"
    by (simp add: sample_state_after_first_def initial_fluid_bc_state_def sample_cell_fields)
  have i: "in_solid sample_geometry (support_points sample_fluid_cell ! 1)"
    by (simp add: sample_cell_fields sample_in_solid)
  have d: "dirichlet_increment sample_solid_fields sample_fluid_fe
             (present_solution sample_fluid_solver) sample_fluid_cell 1 = 3"
    by (simp add: dirichlet_increment_def sample_solid_fields_def sample_fluid_fe_def p)
  have n: "nonzero_constraints sample_fluid_solver 1 = None"
          "zero_constraints sample_fluid_solver 1 = None"
          "dof_indices sample_fluid_cell ! 1 = 1"
    by (simp_all add: sample_fluid_solver_def sample_cell_fields)
  from sample_find_fluid_bc_ok obtain res where
    r: "find_fluid_bc sample_geometry sample_solid_fields sample_physics sample_fluid_fe
            sample_fluid_solver = Inr res"
    by blast
  from find_fluid_bc_dirichlet_increment [OF w f t sample_candidates(2) i r] d n
  have "result_inner_nonzero res 1 = Some \<lparr>entries = [], inhomogeneity = 3\<rparr> \<and>
          result_inner_zero res 1 = Some \<lparr>entries = [], inhomogeneity = 0\<rparr> \<and>
          nonzero_constraints (result_fluid res) 1 = Some \<lparr>entries = [], inhomogeneity = 3\<rparr> \<and>
          zero_constraints (result_fluid res) 1 = Some \<lparr>entries = [], inhomogeneity = 0\<rparr>"
    by simp
  with r w f t i sample_candidates(2) show ?thesis by blast
qed

text \<open>
  C7 at the sample cell away from the solid (skipped) and at the sample cell with an
  interpolator that finds no cell (abort).
\<close>

theorem find_fluid_bc_skip_or_abort_witness:
  "support_work sample_fluid_fe (fluid_cells (sample_fluid_solver\<lparr>fluid_cells := [sample_far_cell]\<rparr>)) =
     [] @ (sample_far_cell, 0) # [(sample_far_cell, 1), (sample_far_cell, 2), (sample_far_cell, 3)] \<and>
   dof_touched initial_fluid_bc_state (dof_indices sample_far_cell ! 0) = 0 \<and>
   dirichlet_candidate sample_geometry sample_fluid_fe 0 \<and>
   \<not> in_solid sample_geometry (support_points sample_far_cell ! 0) \<and>
   support_point_step sample_geometry sample_solid_fields sample_fluid_fe
     (present_solution sample_fluid_solver) sample_far_cell 0
     (initial_fluid_bc_state, hints sample_far_cell) =
     Inr (initial_fluid_bc_state\<lparr>dof_touched :=
            (dof_touched initial_fluid_bc_state)(dof_indices sample_far_cell ! 0 := 1)\<rparr>,
          hints sample_far_cell) \<and>
   support_work sample_fluid_fe (fluid_cells sample_fluid_solver) =
     [] @ (sample_fluid_cell, 0) #
     [(sample_fluid_cell, 1), (sample_fluid_cell, 2), (sample_fluid_cell, 3)] \<and>
   in_solid sample_geometry (support_points sample_fluid_cell ! 0) \<and>
   \<not> found_cell (sample_solid_fields\<lparr>found_cell := (\<lambda>pt h. False)\<rparr>)
       (support_points sample_fluid_cell ! 0)
       (locator_search (sample_solid_fields\<lparr>found_cell := (\<lambda>pt h. False)\<rparr>)
          (support_points sample_fluid_cell ! 0) (hints sample_fluid_cell ! 0)) \<and>
   find_fluid_bc sample_geometry (sample_solid_fields\<lparr>found_cell := (\<lambda>pt h. False)\<rparr>)
     sample_physics sample_fluid_fe sample_fluid_solver =
     Inl (CannotFindPointInSolid [1/2, 1/2])"
proof -
  let ?far = "sample_fluid_solver\<lparr>fluid_cells := [sample_far_cell]\<rparr>"
  let ?S = "sample_solid_fields\<lparr>found_cell := (\<lambda>pt h. False)\<rparr>"
  have w1: "support_work sample_fluid_fe (fluid_cells ?far) =
     [] @ (sample_far_cell, 0) # [(sample_far_cell, 1), (sample_far_cell, 2), (sample_far_cell, 3)]"
    using sample_work(1) [of sample_far_cell] by (simp add: sample_far_cell_fields)
  have w2: "support_work sample_fluid_fe (fluid_cells sample_fluid_solver) =
     [] @ (sample_fluid_cell, 0) #
     [(sample_fluid_cell, 1), (sample_fluid_cell, 2), (sample_fluid_cell, 3)]"
    using sample_work(1) [of sample_fluid_cell]
    by (simp add: sample_fluid_solver_def sample_cell_fields)
  have e: "fold_error f [] initial_fluid_bc_state = Inr initial_fluid_bc_state" for f
    by simp
  have t1: "dof_touched initial_fluid_bc_state (dof_indices sample_far_cell ! 0) = 0"
    and t2: "dof_touched initial_fluid_bc_state (dof_indices sample_fluid_cell ! 0) = 0"
    by (simp_all add: initial_fluid_bc_state_def)
  have o: "\<not> in_solid sample_geometry (support_points sample_far_cell ! 0)"
    by (simp add: sample_far_cell_fields sample_not_in_solid)
  have i: "in_solid sample_geometry (support_points sample_fluid_cell ! 0)"
    by (simp add: sample_cell_fields sample_in_solid)
  have nf: "\<not> found_cell ?S (support_points sample_fluid_cell ! 0)
       (locator_search ?S (support_points sample_fluid_cell ! 0) (hints sample_fluid_cell ! 0))"
    by simp
  have p: "present_solution ?far = present_solution sample_fluid_solver" by simp
  have s0: "support_points sample_fluid_cell ! 0 = [1/2, 1/2]"
    by (simp add: sample_cell_fields)
  from find_fluid_bc_skip_or_abort [OF w1 e t1 sample_candidates(1,3,4),
      of sample_solid_fields "hints sample_far_cell" sample_physics]
    find_fluid_bc_skip_or_abort [OF w2 e t2 sample_candidates(1,3,4),
      of ?S "hints sample_fluid_cell" sample_physics]
    w1 w2 t1 o i nf sample_candidates(1)
  show ?thesis
    unfolding p s0 by blast
qed

lemma sample_corner_outside:
  "\<not> in_solid sample_geometry [-1/2, -1/2]"
  "\<not> in_solid sample_geometry [1/2, -1/2]"
  "\<not> in_solid sample_geometry [-1/2, 1/2]"
  by (simp_all add: in_solid_def sample_geometry_def point_in_solid_def outside_solid_box_def
      sample_upt)

lemma upt12: "[0..<12] = [0, 1, 2, 3, 4, 5, 6, 7, 8, 9, 10, 11]"
  by (simp add: upt_rec)

text \<open>
  C2 at a failing input.  The claim, the specification and the comment of the source
  (\<open>skip the in-cell support point\<close>) exempt only support points in the interior of the
  cell.  The velocity support point with unit coordinates \<open>(1, 1)\<close> of the one-cell sample
  mesh is a corner of the cell, its dof is untouched and its location \<open>(1/2, 1/2)\<close> is
  inside the solid; yet the flag \<open>inside\<close> is set for it (the test looks for a unit
  coordinate below \<open>1e-5\<close> and never for one at \<open>1\<close>), the loop body skips it without
  touching the dof, and the run ends with no constraint line for the dof, where the
  claim requires the line with the velocity increment.
\<close>

theorem find_fluid_bc_skips_unit_corner:
  "unit_points sample_q1_fe ! 9 = [1, 1] \<and>
   base_group sample_q1_fe 9 = 0 \<and>
   dof_touched initial_fluid_bc_state (dof_indices sample_corner_cell ! 9) = 0 \<and>
   in_solid sample_geometry (support_points sample_corner_cell ! 9) \<and>
   support_point_step sample_geometry sample_solid_fields sample_q1_fe (\<lambda>dof. 1)
     sample_corner_cell 9 (initial_fluid_bc_state, hints sample_corner_cell) =
     Inr (initial_fluid_bc_state, hints sample_corner_cell) \<and>
   map_sum (\<lambda>e. e) (\<lambda>res. result_inner_nonzero res 9)
     (find_fluid_bc sample_geometry sample_solid_fields sample_physics sample_q1_fe
        (sample_fluid_solver\<lparr>fluid_cells := [sample_corner_cell]\<rparr>)) = Inr None"
proof -
  have sp: "support_points sample_corner_cell =
     [[-1/2, -1/2], [-1/2, -1/2], [-1/2, -1/2], [1/2, -1/2], [1/2, -1/2], [1/2, -1/2],
      [-1/2, 1/2], [-1/2, 1/2], [-1/2, 1/2], [1/2, 1/2], [1/2, 1/2], [1/2, 1/2]]"
    and di: "dof_indices sample_corner_cell = [0, 1, 2, 3, 4, 5, 6, 7, 8, 9, 10, 11]"
    and ar: "is_artificial sample_corner_cell = False"
    and ow: "is_locally_owned sample_corner_cell = True"
    and hi: "hints sample_corner_cell = [0, 0, 0, 0, 0, 0, 0, 0, 0, 0, 0, 0]"
    by (simp_all add: sample_corner_cell_def)
  have a: "unit_points sample_q1_fe ! 9 = [1, 1]" "base_group sample_q1_fe 9 = 0"
    by (simp_all add: sample_q1_fe_def)
  have b: "dof_touched initial_fluid_bc_state (dof_indices sample_corner_cell ! 9) = 0"
    by (simp add: initial_fluid_bc_state_def)
  have c: "in_solid sample_geometry (support_points sample_corner_cell ! 9)"
    by (simp add: sp sample_in_solid)
  have d: "support_point_step sample_geometry sample_solid_fields sample_q1_fe (\<lambda>dof. 1)
     sample_corner_cell 9 (initial_fluid_bc_state, hints sample_corner_cell) =
     Inr (initial_fluid_bc_state, hints sample_corner_cell)"
    by (simp add: support_point_step_def a b in_cell_support_point_def sample_upt
        sample_geometry_def [THEN arg_cong, of space_dim])
  have e: "map_sum (\<lambda>e. e) (\<lambda>res. result_inner_nonzero res 9)
     (find_fluid_bc sample_geometry sample_solid_fields sample_physics sample_q1_fe
        (sample_fluid_solver\<lparr>fluid_cells := [sample_corner_cell]\<rparr>)) = Inr None"
    by (simp add: find_fluid_bc_def fluid_cell_step_def support_point_step_def
        sample_corner_outside sample_in_solid sp di ar ow hi
        initial_fluid_bc_state_def in_cell_support_point_def sample_upt upt12
        sample_fluid_solver_def sample_q1_fe_def sample_solid_fields_def
        add_line_def set_inhomogeneity_def Let_def
        sample_geometry_def [THEN arg_cong, of space_dim])
  from a b c d e show ?thesis by blast
qed

end
